theory Spec2Isabelle
  imports Complex_Main
begin

section \<open>The ball simulation of logic.py\<close>

text \<open>
  The development follows \<^verbatim>\<open>logic.py\<close>: class \<^verbatim>\<open>Ball\<close> with its
  per-frame kinematics, and class \<^verbatim>\<open>GameLogic\<close> with the collections of active
  and stored balls, collisions with colour mixing, suction, ejection and the delete zone.

  Positions and velocities, which are Python floats, are read as real numbers: the
  kinematics of the source is the exact arithmetic on \<^typ>\<open>real\<close>, so its rounding,
  infinities and NaN are outside the model. The colour arithmetic ends in an integer
  that depends on the rounding, so it is modelled in double precision, each operation
  rounded as IEEE 754 rounds it. Python's integers are \<^typ>\<open>int\<close>. A value that
  Python draws from its random generator is an argument of the model.
\<close>

subsection \<open>Python's numeric helpers\<close>

text \<open>
  A finite double is the real number it denotes. \<open>to_double\<close> rounds a real to the
  nearest double, ties to the even significand: the significand has 53 bits, so the
  spacing of the doubles around \<open>v\<close> is \<open>2\<close> to the power \<open>\<lfloor>log\<^sub>2 \<bar>v\<bar>\<rfloor> - 52\<close>,
  and not less than \<open>2\<close> to the power \<open>- 1074\<close>, the spacing of the subnormal numbers.
  The two zeros are not told apart, and the exponent has no upper bound: no operation
  of the source depends on the sign of a zero, and a result beyond the largest double
  needs operands beyond \<open>10\<^sup>3\<^sup>0\<^sup>7\<close>.
\<close>

definition pow2 :: "int \<Rightarrow> real" where
  "pow2 k = (if 0 \<le> k then 2 ^ nat k else 1 / 2 ^ nat (- k))"

definition round_half_even :: "real \<Rightarrow> int" where
  "round_half_even v =
     (let f = \<lfloor>v\<rfloor>; d = v - of_int f
      in if d < 1 / 2 then f else if 1 / 2 < d then f + 1 else if even f then f else f + 1)"

definition to_double :: "real \<Rightarrow> real" where
  "to_double v =
     (if v = 0 then 0
      else let q = pow2 (max (\<lfloor>log 2 \<bar>v\<bar>\<rfloor> - 52) (- 1074))
           in of_int (round_half_even (v / q)) * q)"

text \<open>\<^verbatim>\<open>int(v)\<close> on a float truncates toward zero.\<close>

definition py_int :: "real \<Rightarrow> int" where
  "py_int v = (if 0 \<le> v then \<lfloor>v\<rfloor> else \<lceil>v\<rceil>)"

text \<open>
  C's \<^verbatim>\<open>fmod\<close> is exact: the dividend minus the divisor times the quotient
  truncated toward zero.
\<close>

definition fmod :: "real \<Rightarrow> real \<Rightarrow> real" where
  "fmod a b = a - b * of_int (py_int (a / b))"

text \<open>
  \<^verbatim>\<open>a % b\<close> on floats, as CPython computes it: \<^verbatim>\<open>fmod\<close>, and when the
  remainder is not zero and its sign is not the sign of the divisor, the divisor is
  added to it, which rounds. So a tiny negative \<open>a\<close> gives \<open>b\<close> itself. The source only
  uses it with the literal divisor 255, so the division by zero of Python is never
  reached.
\<close>

definition py_mod :: "real \<Rightarrow> real \<Rightarrow> real" where
  "py_mod a b =
     (let m = fmod a b
      in if m \<noteq> 0 then (if (b < 0) \<noteq> (m < 0) then to_double (m + b) else m) else 0)"

text \<open>\<^verbatim>\<open>a / b\<close> on two integers is the exact quotient, rounded once.\<close>

definition int_truediv :: "int \<Rightarrow> int \<Rightarrow> real" where
  "int_truediv a b = to_double (of_int a / of_int b)"

subsection \<open>Class Ball\<close>

record Ball =
  x :: real
  y :: real
  radius :: real
  color :: "int \<times> int \<times> int"
  velocity :: "real \<times> real"

text \<open>The values \<^verbatim>\<open>Ball.__init__\<close> draws when colour or velocity are omitted.\<close>

record draws =
  rand_x :: real
  rand_y :: real
  rand_r :: int
  rand_g :: int
  rand_b :: int
  rand_speed :: real
  rand_angle :: real

definition Ball_init ::
  "real \<Rightarrow> real \<Rightarrow> real \<Rightarrow> (int \<times> int \<times> int) option \<Rightarrow> (real \<times> real) option \<Rightarrow> draws \<Rightarrow> Ball"
where
  "Ball_init px py r c v d =
     \<lparr> x = px, y = py, radius = r,
       color = (case c of None \<Rightarrow> (rand_r d, rand_g d, rand_b d) | Some c' \<Rightarrow> c'),
       velocity = (case v of
                     None \<Rightarrow> (rand_speed d * cos (rand_angle d), rand_speed d * sin (rand_angle d))
                   | Some v' \<Rightarrow> v') \<rparr>"

text \<open>
  \<^verbatim>\<open>Ball.update(screen_width, screen_height, friction)\<close>: friction, move, then one
  \<^verbatim>\<open>if\<close>/\<^verbatim>\<open>elif\<close> per axis. The two bounds are called \<open>width\<close> and
  \<open>height\<close> here.
\<close>

definition Ball_update :: "Ball \<Rightarrow> int \<Rightarrow> int \<Rightarrow> real \<Rightarrow> Ball" where
  "Ball_update b width height friction =
     (let vx = fst (velocity b) * friction;
          vy = snd (velocity b) * friction;
          x1 = x b + vx;
          y1 = y b + vy;
          (x2, vx2) =
             (if x1 - radius b < 0 then (radius b, \<bar>vx\<bar> * 0.8)
              else if x1 + radius b > of_int width
                   then (of_int width - radius b, - \<bar>vx\<bar> * 0.8)
              else (x1, vx));
          (y2, vy2) =
             (if y1 - radius b < 0 then (radius b, \<bar>vy\<bar> * 0.8)
              else if y1 + radius b > of_int height
                   then (of_int height - radius b, - \<bar>vy\<bar> * 0.8)
              else (y1, vy))
      in b\<lparr> x := x2, y := y2, velocity := (vx2, vy2) \<rparr>)"

text \<open>The default argument \<^verbatim>\<open>friction = 0.98\<close>.\<close>

definition default_friction :: real where
  "default_friction = 0.98"

definition distance_to :: "Ball \<Rightarrow> Ball \<Rightarrow> real" where
  "distance_to b other =
     (let dx = x b - x other; dy = y b - y other in sqrt (dx * dx + dy * dy))"

definition is_colliding :: "Ball \<Rightarrow> Ball \<Rightarrow> bool" where
  "is_colliding b other \<longleftrightarrow> distance_to b other \<le> radius b + radius other"

subsection \<open>Colour mixing\<close>

text \<open>
  \<^verbatim>\<open>r1 * 0.6 + r2 * 0.4\<close>: each integer is converted to a double, each literal is
  the double nearest to it, and both products and the sum are rounded. (Python raises
  \<^verbatim>\<open>OverflowError\<close> for an integer beyond the largest double; channels are
  documented as 0 to 255, and the model does not cover such integers.)
\<close>

definition weighted_sum :: "int \<Rightarrow> int \<Rightarrow> real" where
  "weighted_sum c1 c2 =
     to_double (to_double (to_double (of_int c1) * to_double 0.6) +
                to_double (to_double (of_int c2) * to_double 0.4))"

text \<open>One channel: \<^verbatim>\<open>int((r1 * 0.6 + r2 * 0.4) % 255)\<close>.\<close>

definition mix_channel :: "int \<Rightarrow> int \<Rightarrow> int" where
  "mix_channel c1 c2 = py_int (py_mod (weighted_sum c1 c2) 255)"

text \<open>
  The colour that \<^verbatim>\<open>GameLogic._mix_colors\<close> computes from the two colours, before
  it assigns it to both balls.
\<close>

definition mixed_color :: "int \<times> int \<times> int \<Rightarrow> int \<times> int \<times> int \<Rightarrow> int \<times> int \<times> int" where
  "mixed_color c1 c2 =
     (case c1 of (r1, g1, b1) \<Rightarrow> case c2 of (r2, g2, b2) \<Rightarrow>
        let mixed_r = mix_channel r1 r2;
            mixed_g = mix_channel g1 g2;
            mixed_b = mix_channel b1 b2;
            brightness = int_truediv (mixed_r + mixed_g + mixed_b) 3
        in if brightness > 200 then
             (if mixed_r > mixed_g \<and> mixed_r > mixed_b
                then (mixed_r, max 50 (mixed_g - 50), max 50 (mixed_b - 50))
              else if mixed_g > mixed_r \<and> mixed_g > mixed_b
                then (max 50 (mixed_r - 50), mixed_g, max 50 (mixed_b - 50))
              else (max 50 (mixed_r - 50), max 50 (mixed_g - 50), mixed_b))
           else (mixed_r, mixed_g, mixed_b))"

subsection \<open>Class GameLogic\<close>

text \<open>
  Python compares \<^verbatim>\<open>Ball\<close> objects by identity (the class defines no
  \<^verbatim>\<open>__eq__\<close>), and both lists hold references to objects that the methods mutate.
  So the model has a store: a reference is a number, \<open>heap\<close> maps each reference to the
  object's fields, and \<open>next_ref\<close> is the first reference not yet handed out. The two
  lists hold references.
\<close>

type_synonym ref = nat

datatype error = ZeroDivisionError | ValueError

record GameLogic =
  heap :: "ref \<Rightarrow> Ball"
  next_ref :: ref
  screen_width :: int
  screen_height :: int
  balls :: "ref list"
  inventory :: "ref list"
  delete_zone_size :: int
  delete_zone_x :: int
  delete_zone_y :: int
  suction_range :: int
  suction_active :: bool
  suction_mouse_pos :: "real \<times> real"

text \<open>The content of a store cell before an object is allocated there; it is never read.\<close>

definition no_ball :: Ball where
  "no_ball = \<lparr> x = 0, y = 0, radius = 0, color = (0, 0, 0), velocity = (0, 0) \<rparr>"

definition GameLogic_init :: "int \<Rightarrow> int \<Rightarrow> GameLogic" where
  "GameLogic_init width height =
     \<lparr> heap = (\<lambda>_. no_ball), next_ref = 0,
       screen_width = width, screen_height = height,
       balls = [], inventory = [],
       delete_zone_size = 100, delete_zone_x = width - 100, delete_zone_y = 0,
       suction_range = 100, suction_active = False, suction_mouse_pos = (0, 0) \<rparr>"

text \<open>
  \<^verbatim>\<open>add_ball(x, y, color)\<close>: an omitted coordinate is drawn at random; the ball is
  built with the default radius 15 and no velocity argument.
\<close>

definition add_ball ::
  "GameLogic \<Rightarrow> real option \<Rightarrow> real option \<Rightarrow> (int \<times> int \<times> int) option \<Rightarrow> draws
     \<Rightarrow> ref \<times> GameLogic"
where
  "add_ball g px py c d =
     (let x' = (case px of None \<Rightarrow> rand_x d | Some v \<Rightarrow> v);
          y' = (case py of None \<Rightarrow> rand_y d | Some v \<Rightarrow> v);
          ball = next_ref g
      in (ball, g\<lparr> heap := (heap g)(ball := Ball_init x' y' 15 c None d),
                   next_ref := Suc ball,
                   balls := balls g @ [ball] \<rparr>))"

text \<open>The first loop of \<^verbatim>\<open>update\<close>: every active ball moves, with the default friction.\<close>

definition update_balls :: "GameLogic \<Rightarrow> GameLogic" where
  "update_balls g =
     g\<lparr> heap := fold (\<lambda>ball h. h(ball := Ball_update (h ball) (screen_width g) (screen_height g)
                                          default_friction))
                     (balls g) (heap g) \<rparr>"

text \<open>\<^verbatim>\<open>_mix_colors(ball1, ball2)\<close>: two assignments, one after the other.\<close>

definition mix_colors :: "(ref \<Rightarrow> Ball) \<Rightarrow> ref \<Rightarrow> ref \<Rightarrow> (ref \<Rightarrow> Ball)" where
  "mix_colors h ball1 ball2 =
     (let c = mixed_color (color (h ball1)) (color (h ball2));
          h1 = h(ball1 := (h ball1)\<lparr> color := c \<rparr>)
      in h1(ball2 := (h1 ball2)\<lparr> color := c \<rparr>))"

text \<open>
  The body of the inner loop of \<^verbatim>\<open>_handle_collisions\<close> for the indices \<open>i\<close> and
  \<open>j\<close>, on the set of pairs already checked and the store.
\<close>

definition collide_pair ::
  "ref list \<Rightarrow> nat \<Rightarrow> nat \<Rightarrow> (nat \<times> nat) set \<times> (ref \<Rightarrow> Ball) \<Rightarrow> (nat \<times> nat) set \<times> (ref \<Rightarrow> Ball)"
where
  "collide_pair bs i j st =
     (case st of (checked_pairs, h) \<Rightarrow>
        let pair = (min i j, max i j) in
        if pair \<in> checked_pairs then (checked_pairs, h)
        else if is_colliding (h (bs ! i)) (h (bs ! j))
             then (insert pair checked_pairs, mix_colors h (bs ! i) (bs ! j))
             else (insert pair checked_pairs, h))"

definition handle_collisions :: "GameLogic \<Rightarrow> GameLogic" where
  "handle_collisions g =
     (let bs = balls g
      in g\<lparr> heap := snd (fold (\<lambda>i. fold (collide_pair bs i) [Suc i ..< length bs])
                               [0 ..< length bs] ({}, heap g)) \<rparr>)"

definition start_suction :: "GameLogic \<Rightarrow> real \<Rightarrow> real \<Rightarrow> GameLogic" where
  "start_suction g mouse_x mouse_y =
     g\<lparr> suction_active := True, suction_mouse_pos := (mouse_x, mouse_y) \<rparr>"

definition stop_suction :: "GameLogic \<Rightarrow> GameLogic" where
  "stop_suction g = g\<lparr> suction_active := False \<rparr>"

text \<open>A loop whose body may raise: the first error ends it.\<close>

fun foldE :: "('a \<Rightarrow> 's \<Rightarrow> error + 's) \<Rightarrow> 'a list \<Rightarrow> 's \<Rightarrow> error + 's" where
  "foldE f [] s = Inr s"
| "foldE f (a # as) s = (case f a s of Inl e \<Rightarrow> Inl e | Inr s' \<Rightarrow> foldE f as s')"

text \<open>\<^verbatim>\<open>list.remove(a)\<close> deletes the first occurrence and raises when there is none.\<close>

definition list_remove :: "'a \<Rightarrow> 'a list \<Rightarrow> error + 'a list" where
  "list_remove a xs = (if a \<in> set xs then Inr (remove1 a xs) else Inl ValueError)"

text \<open>
  The body of the first loop of \<^verbatim>\<open>_process_suction\<close> for one ball, on the store, the
  inventory and the list \<^verbatim>\<open>balls_to_remove\<close>; \<open>reach\<close> is
  \<^verbatim>\<open>self.suction_range\<close>, and the division by it raises when it is zero.
\<close>

definition suction_ball ::
  "real \<times> real \<Rightarrow> int \<Rightarrow> ref \<Rightarrow> (ref \<Rightarrow> Ball) \<times> ref list \<times> ref list
     \<Rightarrow> error + (ref \<Rightarrow> Ball) \<times> ref list \<times> ref list"
where
  "suction_ball mouse reach ball st =
     (case st of (h, inv_list, balls_to_remove) \<Rightarrow>
        let dx = x (h ball) - fst mouse;
            dy = y (h ball) - snd mouse;
            distance = sqrt (dx * dx + dy * dy)
        in if distance \<le> of_int reach then
             (if reach = 0 then Inl ZeroDivisionError
              else
                let pull_strength = (of_int reach - distance) / of_int reach;
                    pull_strength = min (pull_strength * 5) 10;
                    (dir_x, dir_y) =
                       (if distance > 0 then (dx / distance, dy / distance) else (0, 0));
                    (vx, vy) = velocity (h ball);
                    h' = h(ball := (h ball)\<lparr> velocity := (vx + dir_x * pull_strength * 0.3,
                                                          vy + dir_y * pull_strength * 0.3) \<rparr>)
                in if distance < radius (h' ball) + 10
                   then Inr (h', inv_list @ [ball], balls_to_remove @ [ball])
                   else Inr (h', inv_list, balls_to_remove))
           else Inr (h, inv_list, balls_to_remove))"

definition process_suction :: "GameLogic \<Rightarrow> error + GameLogic" where
  "process_suction g =
     (case foldE (suction_ball (suction_mouse_pos g) (suction_range g)) (balls g)
                 (heap g, inventory g, []) of
        Inl e \<Rightarrow> Inl e
      | Inr (h, inv_list, balls_to_remove) \<Rightarrow>
          (case foldE (\<lambda>ball bs. if ball \<in> set bs then list_remove ball bs else Inr bs)
                      balls_to_remove (balls g) of
             Inl e \<Rightarrow> Inl e
           | Inr bs \<Rightarrow> Inr (g\<lparr> heap := h, inventory := inv_list, balls := bs \<rparr>)))"

text \<open>
  \<^verbatim>\<open>eject_ball(mouse_x, mouse_y, velocity)\<close> returns the ejected ball, or
  \<^verbatim>\<open>None\<close>, and the state.
\<close>

definition eject_ball ::
  "GameLogic \<Rightarrow> real \<Rightarrow> real \<Rightarrow> (real \<times> real) option \<Rightarrow> draws \<Rightarrow> ref option \<times> GameLogic"
where
  "eject_ball g mouse_x mouse_y vel d =
     (if inventory g = [] then (None, g)
      else
        let ball = last (inventory g);
            b1 = (heap g ball)\<lparr> x := mouse_x, y := mouse_y \<rparr>;
            b2 = b1\<lparr> velocity :=
                       (case vel of
                          None \<Rightarrow> (rand_speed d * cos (rand_angle d),
                                   rand_speed d * sin (rand_angle d))
                        | Some v \<Rightarrow> v) \<rparr>
        in (Some ball, g\<lparr> heap := (heap g)(ball := b2),
                          inventory := butlast (inventory g),
                          balls := balls g @ [ball] \<rparr>))"

definition is_in_delete_zone :: "GameLogic \<Rightarrow> real \<Rightarrow> real \<Rightarrow> bool" where
  "is_in_delete_zone g px py \<longleftrightarrow>
     of_int (delete_zone_x g) \<le> px \<and> px \<le> of_int (screen_width g) \<and>
     0 \<le> py \<and> py \<le> of_int (delete_zone_size g)"

definition get_delete_zone_bounds :: "GameLogic \<Rightarrow> int \<times> int \<times> int \<times> int" where
  "get_delete_zone_bounds g =
     (delete_zone_x g, delete_zone_y g, delete_zone_size g, delete_zone_size g)"

text \<open>
  \<^verbatim>\<open>_check_delete_zone\<close> writes its test out again instead of calling
  \<^verbatim>\<open>is_in_delete_zone\<close>; its second loop removes without a membership test.
\<close>

definition check_delete_zone :: "GameLogic \<Rightarrow> error + GameLogic" where
  "check_delete_zone g =
     (let balls_to_remove =
            filter (\<lambda>ball. of_int (delete_zone_x g) \<le> x (heap g ball) \<and>
                            x (heap g ball) \<le> of_int (screen_width g) \<and>
                            0 \<le> y (heap g ball) \<and>
                            y (heap g ball) \<le> of_int (delete_zone_size g))
                   (balls g)
      in case foldE list_remove balls_to_remove (balls g) of
           Inl e \<Rightarrow> Inl e
         | Inr bs \<Rightarrow> Inr (g\<lparr> balls := bs \<rparr>))"

text \<open>
  \<^verbatim>\<open>update\<close> in two parts: everything up to and including the suction phase, then
  the delete-zone check.
\<close>

definition update_to_suction :: "GameLogic \<Rightarrow> error + GameLogic" where
  "update_to_suction g =
     (let g1 = update_balls g;
          g2 = handle_collisions g1
      in if suction_active g2 then process_suction g2 else Inr g2)"

definition update :: "GameLogic \<Rightarrow> error + GameLogic" where
  "update g =
     (case update_to_suction g of
        Inl e \<Rightarrow> Inl e
      | Inr g3 \<Rightarrow> check_delete_zone g3)"

subsection \<open>Notions used in the properties\<close>

text \<open>The distance of a ball to the mouse, as the first loop of \<^verbatim>\<open>_process_suction\<close> computes it.\<close>

definition suction_distance :: "(ref \<Rightarrow> Ball) \<Rightarrow> real \<times> real \<Rightarrow> ref \<Rightarrow> real" where
  "suction_distance h mouse ball =
     (let dx = x (h ball) - fst mouse; dy = y (h ball) - snd mouse
      in sqrt (dx * dx + dy * dy))"

text \<open>
  The test under which that loop appends a ball to the inventory and to
  \<^verbatim>\<open>balls_to_remove\<close>: its distance to the mouse is at most the suction range
  and less than its radius plus 10.
\<close>

definition collected :: "(ref \<Rightarrow> Ball) \<Rightarrow> real \<times> real \<Rightarrow> int \<Rightarrow> ref \<Rightarrow> bool" where
  "collected h mouse reach ball \<longleftrightarrow>
     suction_distance h mouse ball \<le> of_int reach \<and>
     suction_distance h mouse ball < radius (h ball) + 10"

text \<open>Two stores that give every ball the same position and radius.\<close>

definition same_place :: "(ref \<Rightarrow> Ball) \<Rightarrow> (ref \<Rightarrow> Ball) \<Rightarrow> bool" where
  "same_place h h' \<longleftrightarrow>
     (\<forall>ball. x (h' ball) = x (h ball) \<and> y (h' ball) = y (h ball) \<and>
             radius (h' ball) = radius (h ball))"

text \<open>
  The states of a \<^verbatim>\<open>GameLogic\<close> object that is built by the constructor and then
  used through its public methods only. A call of \<^verbatim>\<open>update\<close> that raises ends
  the run.
\<close>

inductive reachable :: "GameLogic \<Rightarrow> bool" where
  init: "reachable (GameLogic_init width height)"
| add: "reachable g \<Longrightarrow> reachable (snd (add_ball g px py c d))"
| upd: "reachable g \<Longrightarrow> update g = Inr g' \<Longrightarrow> reachable g'"
| eject: "reachable g \<Longrightarrow> reachable (snd (eject_ball g mouse_x mouse_y vel d))"
| start: "reachable g \<Longrightarrow> reachable (start_suction g mouse_x mouse_y)"
| stop: "reachable g \<Longrightarrow> reachable (stop_suction g)"

text \<open>What the constructor fixes and no method changes.\<close>

definition fixed_fields :: "GameLogic \<Rightarrow> bool" where
  "fixed_fields g \<longleftrightarrow>
     delete_zone_size g = 100 \<and> delete_zone_x g = screen_width g - 100 \<and>
     delete_zone_y g = 0 \<and> suction_range g = 100"

text \<open>
  Every ball of the two lists is an allocated object, and no ball occurs twice in the
  two lists together.
\<close>

definition owned :: "GameLogic \<Rightarrow> bool" where
  "owned g \<longleftrightarrow>
     distinct (balls g @ inventory g) \<and> (\<forall>ball\<in>set (balls g @ inventory g). ball < next_ref g)"

text \<open>The balls that the object holds, and how many they are.\<close>

definition all_balls :: "GameLogic \<Rightarrow> ref set" where
  "all_balls g = set (balls g) \<union> set (inventory g)"

definition ball_count :: "GameLogic \<Rightarrow> nat" where
  "ball_count g = length (balls g) + length (inventory g)"

text \<open>The test of \<^verbatim>\<open>_check_delete_zone\<close> for one ball, by \<^verbatim>\<open>is_in_delete_zone\<close>.\<close>

definition in_zone :: "GameLogic \<Rightarrow> ref \<Rightarrow> bool" where
  "in_zone g ball \<longleftrightarrow> is_in_delete_zone g (x (heap g ball)) (y (heap g ball))"

text \<open>A colour as \<^verbatim>\<open>Ball.__init__\<close> documents it: three channels from 0 to 255.\<close>

definition valid_color :: "int \<times> int \<times> int \<Rightarrow> bool" where
  "valid_color c = (case c of (r, g, b) \<Rightarrow>
     0 \<le> r \<and> r \<le> 255 \<and> 0 \<le> g \<and> g \<le> 255 \<and> 0 \<le> b \<and> b \<le> 255)"

text \<open>
  A rectangle \<open>(rx, ry, rw, rh)\<close> of a left side, a top side, a width and a height, as
  \<^verbatim>\<open>get_delete_zone_bounds\<close> returns it, contains a point when the point lies
  between its sides, the sides included.
\<close>

definition in_rectangle :: "int \<times> int \<times> int \<times> int \<Rightarrow> real \<Rightarrow> real \<Rightarrow> bool" where
  "in_rectangle rect px py =
     (case rect of (rx, ry, rw, rh) \<Rightarrow>
        of_int rx \<le> px \<and> px \<le> of_int (rx + rw) \<and>
        of_int ry \<le> py \<and> py \<le> of_int (ry + rh))"

subsection \<open>Example runs\<close>

text \<open>
  Values that the random generator can return: a position inside the screen, colour
  channels between 50 and 255, the speed 2 and the heading 0, which give the velocity
  \<open>(2, 0)\<close>.
\<close>

definition example_draws :: draws where
  "example_draws = \<lparr> rand_x = 400, rand_y = 300, rand_r = 100, rand_g = 150, rand_b = 200,
                      rand_speed = 2, rand_angle = 0 \<rparr>"

text \<open>
  One ball at \<open>(400, 300)\<close>; the mouse is pressed where the ball will be after its next
  move. After \<^verbatim>\<open>update\<close> the ball is in the inventory.
\<close>

definition one_ball_game :: GameLogic where
  "one_ball_game =
     start_suction
       (snd (add_ball (GameLogic_init 800 600) (Some 400) (Some 300) (Some (10, 20, 30))
                      example_draws))
       401.96 300"

definition stored_game :: GameLogic where
  "stored_game =
     \<lparr> heap = (\<lambda>_. no_ball)
                 (0 := \<lparr> x = 401.96, y = 300, radius = 15, color = (10, 20, 30),
                         velocity = (1.96, 0) \<rparr>),
       next_ref = 1, screen_width = 800, screen_height = 600,
       balls = [], inventory = [0],
       delete_zone_size = 100, delete_zone_x = 700, delete_zone_y = 0,
       suction_range = 100, suction_active = True, suction_mouse_pos = (401.96, 300) \<rparr>"

text \<open>
  Two balls, A at \<open>(400, 300)\<close> and B at \<open>(405, 300)\<close>, with the mouse pressed as
  before. After \<^verbatim>\<open>update\<close> both are in the inventory, A before B, with the
  colour that their collision mixed.
\<close>

definition two_ball_game :: GameLogic where
  "two_ball_game =
     start_suction
       (snd (add_ball
          (snd (add_ball (GameLogic_init 800 600) (Some 400) (Some 300) (Some (200, 200, 200))
                         example_draws))
          (Some 405) (Some 300) (Some (100, 100, 100)) example_draws))
       401.96 300"

definition two_stored_game :: GameLogic where
  "two_stored_game =
     \<lparr> heap = (\<lambda>_. no_ball)
                 (0 := \<lparr> x = 401.96, y = 300, radius = 15, color = (160, 160, 160),
                         velocity = (1.96, 0) \<rparr>,
                  1 := \<lparr> x = 406.96, y = 300, radius = 15, color = (160, 160, 160),
                         velocity = (3.385, 0) \<rparr>),
       next_ref = 2, screen_width = 800, screen_height = 600,
       balls = [], inventory = [0, 1],
       delete_zone_size = 100, delete_zone_x = 700, delete_zone_y = 0,
       suction_range = 100, suction_active = True, suction_mouse_pos = (401.96, 300) \<rparr>"

text \<open>
  Two balls inside the delete zone of the 800 by 600 screen, at \<open>(750, 50)\<close> and
  \<open>(750, 90)\<close>, with the mouse pressed where the first one will be after its next move.
  After \<^verbatim>\<open>update\<close> the first ball is in the inventory and the second is gone.
\<close>

definition zone_game :: GameLogic where
  "zone_game =
     start_suction
       (snd (add_ball
          (snd (add_ball (GameLogic_init 800 600) (Some 750) (Some 50) (Some (10, 20, 30))
                         example_draws))
          (Some 750) (Some 90) (Some (40, 50, 60)) example_draws))
       751.96 50"

definition zone_game_sucked :: GameLogic where
  "zone_game_sucked =
     \<lparr> heap = (\<lambda>_. no_ball)
                 (0 := \<lparr> x = 751.96, y = 50, radius = 15, color = (10, 20, 30),
                         velocity = (1.96, 0) \<rparr>,
                  1 := \<lparr> x = 751.96, y = 90, radius = 15, color = (40, 50, 60),
                         velocity = (1.96, 0.9) \<rparr>),
       next_ref = 2, screen_width = 800, screen_height = 600,
       balls = [1], inventory = [0],
       delete_zone_size = 100, delete_zone_x = 700, delete_zone_y = 0,
       suction_range = 100, suction_active = True, suction_mouse_pos = (751.96, 50) \<rparr>"

text \<open>
  One ball that is at \<open>(450, 300)\<close> after its move, 50 to the right of the pressed
  mouse at \<open>(400, 300)\<close>.
\<close>

definition pull_game :: GameLogic where
  "pull_game =
     start_suction
       (snd (add_ball (GameLogic_init 800 600) (Some 448.04) (Some 300) (Some (10, 20, 30))
                      example_draws))
       400 300"

section \<open>Properties\<close>

subsection \<open>Ball.update\<close>

text \<open>
  Claim C2, as the code has it. \<^verbatim>\<open>Ball.update\<close> multiplies the velocity by the
  friction before it moves the ball and tests the bounds. So a ball that enters with
  \<open>vx = -2\<close> and whose move crosses the left bound \<open>x = 0\<close> ends with \<open>x = radius\<close>
  and \<open>vx = 2 * friction * 0.8\<close>, for every friction that is not negative: that is
  \<open>1.568\<close> for the default friction \<open>0.98\<close>, and \<open>1.6\<close> only for the friction 1.
\<close>

theorem Ball_update_bounce_left:
  "fst (velocity b) = - 2 \<Longrightarrow> 0 \<le> friction \<Longrightarrow> x b + (- 2) * friction - radius b < 0 \<Longrightarrow>
   x (Ball_update b width height friction) = radius b \<and>
   fst (velocity (Ball_update b width height friction)) = 2 * friction * 0.8"
  by (simp add: Ball_update_def Let_def split: prod.splits)

text \<open>The ball of radius 15 at \<open>x = 15\<close>, with the default friction, on the 800 by 600 screen.\<close>

theorem Ball_update_bounce_left_witness:
  "x (Ball_update \<lparr>x = 15, y = 300, radius = 15, color = (0, 0, 0), velocity = (- 2, 0)\<rparr>
        800 600 default_friction) = 15 \<and>
   fst (velocity (Ball_update \<lparr>x = 15, y = 300, radius = 15, color = (0, 0, 0), velocity = (- 2, 0)\<rparr>
        800 600 default_friction)) = 1.568"
  using Ball_update_bounce_left
          [of "\<lparr>x = 15, y = 300, radius = 15, color = (0, 0, 0), velocity = (- 2, 0)\<rparr>"
              default_friction 800 600]
  by (simp add: default_friction_def)

text \<open>
  Claim C2 as it is written fails there: the ball enters with \<open>vx = -2\<close>, its move crosses
  the left bound, and its velocity after the call is not \<open>1.6\<close>.
\<close>

theorem Ball_update_bounce_left_counterexample:
  "fst (velocity \<lparr>x = 15, y = 300, radius = 15, color = (0, 0, 0), velocity = (- 2, 0)\<rparr>) = - 2 \<and>
   x \<lparr>x = 15, y = 300, radius = 15, color = (0, 0, 0), velocity = (- 2, 0)\<rparr>
     + (- 2) * default_friction
     - radius \<lparr>x = 15, y = 300, radius = 15, color = (0, 0, 0), velocity = (- 2, 0)\<rparr> < 0 \<and>
   fst (velocity (Ball_update \<lparr>x = 15, y = 300, radius = 15, color = (0, 0, 0), velocity = (- 2, 0)\<rparr>
        800 600 default_friction)) \<noteq> 1.6"
  by (simp add: Ball_update_def default_friction_def Let_def)




subsection \<open>Double precision\<close>

text \<open>Powers of two, and the exponent of a number that lies between two of them.\<close>

lemma pow2_pos: "0 < pow2 k"
  by (simp add: pow2_def)

lemma pow2_powr: "pow2 k = 2 powr (of_int k)"
proof (cases "0 \<le> k")
  case True
  then have "(2::real) powr (of_int k) = 2 powr (real (nat k))" by simp
  also have "\<dots> = 2 ^ nat k" by (rule powr_realpow) simp
  finally show ?thesis using True by (simp add: pow2_def)
next
  case False
  then have "(2::real) powr (of_int k) = 2 powr (- real (nat (- k)))" by simp
  also have "\<dots> = 1 / 2 powr (real (nat (- k)))" by (simp add: powr_minus divide_inverse)
  also have "\<dots> = 1 / 2 ^ nat (- k)" by (simp add: powr_realpow)
  finally show ?thesis using False by (simp add: pow2_def)
qed

lemma floor_log2_eq:
  assumes "pow2 k \<le> \<bar>v\<bar>" "\<bar>v\<bar> < pow2 (k + 1)"
  shows "\<lfloor>log 2 \<bar>v\<bar>\<rfloor> = k"
proof -
  from assms(1) pow2_pos [of k] have pos: "0 < \<bar>v\<bar>" by linarith
  have "of_int k \<le> log 2 \<bar>v\<bar>"
    using assms(1) pos by (simp add: pow2_powr le_log_iff)
  moreover have "log 2 \<bar>v\<bar> < of_int (k + 1)"
    using assms(2) pos by (simp add: pow2_powr log_less_iff)
  ultimately show ?thesis by linarith
qed

text \<open>Rounding a number whose exponent is known.\<close>

lemma to_double_eval:
  assumes "pow2 k \<le> \<bar>v\<bar>" "\<bar>v\<bar> < pow2 (k + 1)"
  shows "to_double v =
           of_int (round_half_even (v / pow2 (max (k - 52) (- 1074)))) * pow2 (max (k - 52) (- 1074))"
proof -
  from assms(1) pow2_pos [of k] have "v \<noteq> 0" by auto
  then show ?thesis
    by (simp add: to_double_def floor_log2_eq [OF assms] Let_def)
qed

lemma round_half_even_nonneg: "0 \<le> v \<Longrightarrow> 0 \<le> round_half_even v"
  by (auto simp: round_half_even_def Let_def)

lemma round_half_even_error: "\<bar>of_int (round_half_even v) - v\<bar> \<le> 1 / 2"
  by (auto simp: round_half_even_def Let_def)

lemma round_half_even_of_int: "round_half_even (of_int n) = n"
  by (simp add: round_half_even_def)

lemma to_double_nonneg: "0 \<le> v \<Longrightarrow> 0 \<le> to_double v"
  by (simp add: to_double_def Let_def round_half_even_nonneg pow2_pos less_imp_le)

text \<open>The doubles that the literals \<^verbatim>\<open>0.6\<close> and \<^verbatim>\<open>0.4\<close> denote.\<close>

lemma d06: "to_double 0.6 = 5404319552844595 / 9007199254740992"
  using to_double_eval [of "-1" "0.6"]
  by (simp add: pow2_def round_half_even_def Let_def)

lemma d04: "to_double 0.4 = 3602879701896397 / 9007199254740992"
  using to_double_eval [of "-2" "0.4"]
  by (simp add: pow2_def round_half_even_def Let_def)

lemma pow2_add: "pow2 (a + b) = pow2 a * pow2 b"
  by (simp add: pow2_powr powr_add)

lemma pow2_floor_log2_le:
  assumes "0 < v"
  shows "pow2 \<lfloor>log 2 v\<rfloor> \<le> v"
proof -
  have "of_int \<lfloor>log 2 v\<rfloor> \<le> log 2 v" by (rule of_int_floor_le)
  then have "2 powr (of_int \<lfloor>log 2 v\<rfloor>) \<le> 2 powr (log 2 v)" by simp
  with assms show ?thesis by (simp add: pow2_powr)
qed

text \<open>An integer below \<open>2\<^sup>5\<^sup>3\<close> is a double.\<close>

lemma to_double_of_int:
  assumes "\<bar>c\<bar> < 2 ^ 53"
  shows "to_double (of_int c) = of_int c"
proof (cases "c = 0")
  case True
  then show ?thesis by (simp add: to_double_def)
next
  case False
  define e where "e = \<lfloor>log 2 \<bar>real_of_int c\<bar>\<rfloor>"
  from False have one: "1 \<le> \<bar>real_of_int c\<bar>" by (simp flip: of_int_abs) 
  then have "0 \<le> log 2 \<bar>real_of_int c\<bar>" by simp
  then have e0: "0 \<le> e" by (simp add: e_def)
  from assms have "\<bar>real_of_int c\<bar> < 2 ^ 53"
    by (metis of_int_abs of_int_less_numeral_power_cancel_iff)
  then have "\<bar>real_of_int c\<bar> < 2 powr 53" by simp
  with one have "log 2 \<bar>real_of_int c\<bar> < 53" by (simp add: log_less_iff)
  then have e52: "e \<le> 52" unfolding e_def by linarith
  define n where "n = nat (52 - e)"
  from e0 e52 have m: "max (e - 52) (- 1074) = e - 52" by simp
  have q: "pow2 (e - 52) = 1 / 2 ^ n"
  proof (cases "e = 52")
    case True
    then show ?thesis by (simp add: pow2_def n_def)
  next
    case False
    with e52 have "\<not> 0 \<le> e - 52" by simp
    then show ?thesis by (simp add: pow2_def n_def)
  qed
  have "real_of_int c / pow2 (e - 52) = of_int (c * 2 ^ n)"
    by (simp add: q)
  then have r: "round_half_even (real_of_int c / pow2 (e - 52)) = c * 2 ^ n"
    by (simp only: round_half_even_of_int)
  from False have "to_double (of_int c) = of_int (c * 2 ^ n) * (1 / 2 ^ n)"
    by (simp add: to_double_def Let_def e_def [symmetric] m r) (simp add: q)
  then show ?thesis by simp
qed

text \<open>Rounding a normal number changes it by at most one part in \<open>2\<^sup>5\<^sup>3\<close>.\<close>

lemma to_double_rel_error:
  assumes "pow2 (- 1022) \<le> v"
  shows "\<bar>to_double v - v\<bar> \<le> v / 2 ^ 53"
proof -
  from assms pow2_pos [of "- 1022"] have pos: "0 < v" by linarith
  define e where "e = \<lfloor>log 2 v\<rfloor>"
  from assms pos have "- 1022 \<le> log 2 v"
    by (simp add: pow2_powr le_log_iff)
  then have "- 1022 \<le> e" unfolding e_def by linarith
  then have m: "max (e - 52) (- 1074) = e - 52" by simp
  define q where "q = pow2 (e - 52)"
  have qpos: "0 < q" by (simp add: q_def pow2_pos)
  have "pow2 e = q * 2 ^ 52"
    using pow2_add [of "e - 52" 52] by (simp add: q_def pow2_def)
  with pow2_floor_log2_le [OF pos] have qle: "q * 2 ^ 52 \<le> v" by (simp add: e_def)
  from pos have td: "to_double v = of_int (round_half_even (v / q)) * q"
    by (simp add: to_double_def Let_def e_def [symmetric] m q_def)
  have "to_double v - v = (of_int (round_half_even (v / q)) - v / q) * q"
    using qpos by (simp add: td field_simps)
  then have "\<bar>to_double v - v\<bar> = \<bar>of_int (round_half_even (v / q)) - v / q\<bar> * q"
    using qpos by (simp add: abs_mult)
  also have "\<dots> \<le> (1 / 2) * q"
    using round_half_even_error [of "v / q"] qpos by (intro mult_right_mono) simp_all
  also have "\<dots> \<le> v / 2 ^ 53"
    using qle by simp
  finally show ?thesis .
qed

lemma round_half_even_nonpos: "v \<le> 0 \<Longrightarrow> round_half_even v \<le> 0"
  by (auto simp: round_half_even_def Let_def)

lemma to_double_nonpos:
  assumes "v \<le> 0"
  shows "to_double v \<le> 0"
proof (cases "v = 0")
  case True
  then show ?thesis by (simp add: to_double_def)
next
  case False
  define q where "q = pow2 (max (\<lfloor>log 2 \<bar>v\<bar>\<rfloor> - 52) (- 1074))"
  have qpos: "0 < q" by (simp add: q_def pow2_pos)
  with assms have "v / q \<le> 0" by (simp add: divide_nonpos_pos)
  then have "round_half_even (v / q) \<le> 0" by (rule round_half_even_nonpos)
  then have "real_of_int (round_half_even (v / q)) * q \<le> 0"
    using qpos by (simp add: mult_le_0_iff)
  with False show ?thesis by (simp add: to_double_def Let_def q_def)
qed

text \<open>
  The brightness test on the rounded quotient decides as the exact mean does: 200 is a
  double, and the nearest quotients, 599 / 3 and 601 / 3, are too far from it to round to it.
\<close>

lemma brightness_test: "200 < int_truediv n 3 \<longleftrightarrow> 600 < n"
proof -
  consider "n \<le> 0" | "1 \<le> n" "n \<le> 599" | "n = 600" | "601 \<le> n" by linarith
  then show ?thesis
  proof cases
    case 1
    then have "real_of_int n / 3 \<le> 0" by simp
    from to_double_nonpos [OF this] 1 show ?thesis by (simp add: int_truediv_def)
  next
    case 2
    define v where "v = real_of_int n / 3"
    from 2 have r: "1 / 3 \<le> v" "v \<le> 599 / 3" by (simp_all add: v_def)
    have "pow2 (- 1022) \<le> 1 / 3" by (simp add: pow2_def)
    with r(1) have "pow2 (- 1022) \<le> v" by linarith
    from to_double_rel_error [OF this] have "to_double v \<le> v + v / 2 ^ 53" by linarith
    with r(2) have "to_double v < 200" by simp
    with 2 show ?thesis by (simp add: int_truediv_def v_def)
  next
    case 3
    have "to_double (real_of_int 200) = real_of_int 200" by (rule to_double_of_int) simp
    with 3 show ?thesis by (simp add: int_truediv_def)
  next
    case 4
    define v where "v = real_of_int n / 3"
    from 4 have r: "601 / 3 \<le> v" by (simp add: v_def)
    have "pow2 (- 1022) \<le> 601 / 3" by (simp add: pow2_def)
    with r have "pow2 (- 1022) \<le> v" by linarith
    from to_double_rel_error [OF this] have "v - v / 2 ^ 53 \<le> to_double v" by linarith
    with r have "200 < to_double v" by simp
    with 4 show ?thesis by (simp add: int_truediv_def v_def)
  qed
qed

text \<open>
  On a sum that is not negative, \<^verbatim>\<open>%\<close> is the exact remainder, and truncating it
  gives the remainder of the floor.
\<close>

lemma fmod_nonneg_255:
  assumes "0 \<le> v"
  shows "fmod v 255 = v - 255 * of_int \<lfloor>v / 255\<rfloor>"
  using assms by (simp add: fmod_def py_int_def)

lemma py_mod_nonneg_255:
  assumes "0 \<le> v"
  shows "py_mod v 255 = v - 255 * of_int \<lfloor>v / 255\<rfloor>"
    and "0 \<le> py_mod v 255" and "py_mod v 255 < 255"
proof -
  have lo: "of_int \<lfloor>v / 255\<rfloor> \<le> v / 255" by (rule of_int_floor_le)
  have hi: "v / 255 < of_int \<lfloor>v / 255\<rfloor> + 1" by linarith
  from lo have m0: "0 \<le> fmod v 255" by (simp add: fmod_nonneg_255 [OF assms] field_simps)
  from hi have m1: "fmod v 255 < 255" by (simp add: fmod_nonneg_255 [OF assms] field_simps)
  from m0 have eq: "py_mod v 255 = fmod v 255"
    by (auto simp: py_mod_def Let_def)
  then show "py_mod v 255 = v - 255 * of_int \<lfloor>v / 255\<rfloor>"
    by (simp add: fmod_nonneg_255 [OF assms])
  from eq m0 show "0 \<le> py_mod v 255" by simp
  from eq m1 show "py_mod v 255 < 255" by simp
qed

lemma py_int_py_mod_255:
  assumes "0 \<le> v"
  shows "py_int (py_mod v 255) = \<lfloor>v\<rfloor> mod 255"
proof -
  have k: "\<lfloor>v / 255\<rfloor> = \<lfloor>v\<rfloor> div 255"
    using floor_divide_real_eq_div [of 255 v] by simp
  have "py_int (py_mod v 255) = \<lfloor>py_mod v 255\<rfloor>"
    using py_mod_nonneg_255(2) [OF assms] by (simp add: py_int_def)
  also have "\<dots> = \<lfloor>v - of_int (255 * \<lfloor>v / 255\<rfloor>)\<rfloor>"
    by (simp add: py_mod_nonneg_255(1) [OF assms])
  also have "\<dots> = \<lfloor>v\<rfloor> - 255 * \<lfloor>v / 255\<rfloor>"
    by (rule floor_diff_of_int)
  also have "\<dots> = \<lfloor>v\<rfloor> mod 255"
    unfolding k by (simp add: minus_mult_div_eq_mod)
  finally show ?thesis .
qed

lemma weighted_sum_nonneg:
  assumes "0 \<le> c1" "0 \<le> c2"
  shows "0 \<le> weighted_sum c1 c2"
proof -
  have k: "0 \<le> to_double 0.6" "0 \<le> to_double 0.4" by (simp_all add: to_double_nonneg)
  from assms have "0 \<le> to_double (of_int c1)" "0 \<le> to_double (of_int c2)"
    by (simp_all add: to_double_nonneg)
  with k have "0 \<le> to_double (to_double (of_int c1) * to_double 0.6)"
    "0 \<le> to_double (to_double (of_int c2) * to_double 0.4)"
    by (simp_all add: to_double_nonneg)
  then show ?thesis by (simp add: weighted_sum_def to_double_nonneg)
qed

lemma mix_channel_floor:
  "0 \<le> c1 \<Longrightarrow> 0 \<le> c2 \<Longrightarrow> mix_channel c1 c2 = \<lfloor>weighted_sum c1 c2\<rfloor> mod 255"
  by (simp add: mix_channel_def py_int_py_mod_255 weighted_sum_nonneg)

lemma mix_channel_range:
  "0 \<le> c1 \<Longrightarrow> 0 \<le> c2 \<Longrightarrow> 0 \<le> mix_channel c1 c2 \<and> mix_channel c1 c2 \<le> 254"
  by (simp add: mix_channel_floor)

subsection \<open>Colour mixing\<close>

text \<open>Sums of the source at some channels, each rounding step evaluated.\<close>

lemma weighted_sum_6_1: "weighted_sum 6 1 = 9007199254740991 / 2251799813685248"
proof -
  have ia: "to_double (real_of_int 6) = 6" using to_double_of_int [of 6] by simp
  have ib: "to_double (real_of_int 1) = 1" using to_double_of_int [of 1] by simp
  have pa: "to_double (6 * (5404319552844595 / 9007199254740992)) = 2026619832316723 / 562949953421312"
    using to_double_eval [of "1" "6 * (5404319552844595 / 9007199254740992)"]
    by (simp add: pow2_def round_half_even_def Let_def)
  have pb: "to_double (1 * (3602879701896397 / 9007199254740992)) = 3602879701896397 / 9007199254740992"
    using to_double_eval [of "-2" "1 * (3602879701896397 / 9007199254740992)"]
    by (simp add: pow2_def round_half_even_def Let_def)
  have s: "to_double ((2026619832316723 / 562949953421312) + (3602879701896397 / 9007199254740992)) = 9007199254740991 / 2251799813685248"
    using to_double_eval [of "1" "(2026619832316723 / 562949953421312) + (3602879701896397 / 9007199254740992)"]
    by (simp add: pow2_def round_half_even_def Let_def)
  show ?thesis
    by (simp only: weighted_sum_def ia ib d06 d04 pa pb s)
qed

lemma weighted_sum_250_250: "weighted_sum 250 250 = 250"
proof -
  have ia: "to_double (real_of_int 250) = 250" using to_double_of_int [of 250] by simp
  have ib: "to_double (real_of_int 250) = 250" using to_double_of_int [of 250] by simp
  have pa: "to_double (250 * (5404319552844595 / 9007199254740992)) = 150"
    using to_double_eval [of "7" "250 * (5404319552844595 / 9007199254740992)"]
    by (simp add: pow2_def round_half_even_def Let_def)
  have pb: "to_double (250 * (3602879701896397 / 9007199254740992)) = 100"
    using to_double_eval [of "6" "250 * (3602879701896397 / 9007199254740992)"]
    by (simp add: pow2_def round_half_even_def Let_def)
  have s: "to_double (150 + 100) = 250"
    using to_double_eval [of "7" "150 + 100"]
    by (simp add: pow2_def round_half_even_def Let_def)
  show ?thesis
    by (simp only: weighted_sum_def ia ib d06 d04 pa pb s)
qed

lemma weighted_sum_200_100: "weighted_sum 200 100 = 160"
proof -
  have ia: "to_double (real_of_int 200) = 200" using to_double_of_int [of 200] by simp
  have ib: "to_double (real_of_int 100) = 100" using to_double_of_int [of 100] by simp
  have pa: "to_double (200 * (5404319552844595 / 9007199254740992)) = 120"
    using to_double_eval [of "6" "200 * (5404319552844595 / 9007199254740992)"]
    by (simp add: pow2_def round_half_even_def Let_def)
  have pb: "to_double (100 * (3602879701896397 / 9007199254740992)) = 40"
    using to_double_eval [of "5" "100 * (3602879701896397 / 9007199254740992)"]
    by (simp add: pow2_def round_half_even_def Let_def)
  have s: "to_double (120 + 40) = 160"
    using to_double_eval [of "7" "120 + 40"]
    by (simp add: pow2_def round_half_even_def Let_def)
  show ?thesis
    by (simp only: weighted_sum_def ia ib d06 d04 pa pb s)
qed

lemma weighted_sum_254_254: "weighted_sum 254 254 = 254"
proof -
  have ia: "to_double (real_of_int 254) = 254" using to_double_of_int [of 254] by simp
  have ib: "to_double (real_of_int 254) = 254" using to_double_of_int [of 254] by simp
  have pa: "to_double (254 * (5404319552844595 / 9007199254740992)) = 5362098306337997 / 35184372088832"
    using to_double_eval [of "7" "254 * (5404319552844595 / 9007199254740992)"]
    by (simp add: pow2_def round_half_even_def Let_def)
  have pb: "to_double (254 * (3602879701896397 / 9007199254740992)) = 7149464408450663 / 70368744177664"
    using to_double_eval [of "6" "254 * (3602879701896397 / 9007199254740992)"]
    by (simp add: pow2_def round_half_even_def Let_def)
  have s: "to_double ((5362098306337997 / 35184372088832) + (7149464408450663 / 70368744177664)) = 254"
    using to_double_eval [of "7" "(5362098306337997 / 35184372088832) + (7149464408450663 / 70368744177664)"]
    by (simp add: pow2_def round_half_even_def Let_def)
  show ?thesis
    by (simp only: weighted_sum_def ia ib d06 d04 pa pb s)
qed

lemma weighted_sum_149_9: "weighted_sum 149 9 = 6544293208522751 / 70368744177664"
proof -
  have ia: "to_double (real_of_int 149) = 149" using to_double_of_int [of 149] by simp
  have ib: "to_double (real_of_int 9) = 9" using to_double_of_int [of 9] by simp
  have pa: "to_double (149 * (5404319552844595 / 9007199254740992)) = 6290965729483161 / 70368744177664"
    using to_double_eval [of "6" "149 * (5404319552844595 / 9007199254740992)"]
    by (simp add: pow2_def round_half_even_def Let_def)
  have pb: "to_double (9 * (3602879701896397 / 9007199254740992)) = 8106479329266893 / 2251799813685248"
    using to_double_eval [of "1" "9 * (3602879701896397 / 9007199254740992)"]
    by (simp add: pow2_def round_half_even_def Let_def)
  have s: "to_double ((6290965729483161 / 70368744177664) + (8106479329266893 / 2251799813685248)) = 6544293208522751 / 70368744177664"
    using to_double_eval [of "6" "(6290965729483161 / 70368744177664) + (8106479329266893 / 2251799813685248)"]
    by (simp add: pow2_def round_half_even_def Let_def)
  show ?thesis
    by (simp only: weighted_sum_def ia ib d06 d04 pa pb s)
qed

lemma weighted_sum_255_255: "weighted_sum 255 255 = 255"
proof -
  have ia: "to_double (real_of_int 255) = 255" using to_double_of_int [of 255] by simp
  have ib: "to_double (real_of_int 255) = 255" using to_double_of_int [of 255] by simp
  have pa: "to_double (255 * (5404319552844595 / 9007199254740992)) = 153"
    using to_double_eval [of "7" "255 * (5404319552844595 / 9007199254740992)"]
    by (simp add: pow2_def round_half_even_def Let_def)
  have pb: "to_double (255 * (3602879701896397 / 9007199254740992)) = 102"
    using to_double_eval [of "6" "255 * (3602879701896397 / 9007199254740992)"]
    by (simp add: pow2_def round_half_even_def Let_def)
  have s: "to_double (153 + 102) = 255"
    using to_double_eval [of "7" "153 + 102"]
    by (simp add: pow2_def round_half_even_def Let_def)
  show ?thesis
    by (simp only: weighted_sum_def ia ib d06 d04 pa pb s)
qed


lemma mix_channel_6_1: "mix_channel 6 1 = 3"
  by (simp add: mix_channel_floor weighted_sum_6_1)

lemma mix_channel_250_250: "mix_channel 250 250 = 250"
  by (simp add: mix_channel_floor weighted_sum_250_250)

lemma mix_channel_200_100: "mix_channel 200 100 = 160"
  by (simp add: mix_channel_floor weighted_sum_200_100)

lemma mix_channel_254_254: "mix_channel 254 254 = 254"
  by (simp add: mix_channel_floor weighted_sum_254_254)

lemma mix_channel_149_9: "mix_channel 149 9 = 92"
  by (simp add: mix_channel_floor weighted_sum_149_9)

lemma mix_channel_255_255: "mix_channel 255 255 = 0"
  by (simp add: mix_channel_floor weighted_sum_255_255)

text \<open>
  Outside the documented range the remainder can be the divisor: for the channels 2 and
  \<open>- 3\<close> the sum is a tiny negative number, \<^verbatim>\<open>%\<close> adds 255 to it, the result
  rounds to 255, and the mixed channel is 255.
\<close>

lemma weighted_sum_2_minus_3: "weighted_sum 2 (- 3) = - 1 / 4503599627370496"
proof -
  have ia: "to_double (real_of_int 2) = 2" using to_double_of_int [of 2] by simp
  have ib: "to_double (real_of_int (- 3)) = - 3" using to_double_of_int [of "- 3"] by simp
  have pa: "to_double (2 * (5404319552844595 / 9007199254740992))
              = 5404319552844595 / 4503599627370496"
    using to_double_eval [of 0 "2 * (5404319552844595 / 9007199254740992)"]
    by (simp add: pow2_def round_half_even_def Let_def)
  have pb: "to_double ((- 3) * (3602879701896397 / 9007199254740992))
              = - (1351079888211149 / 1125899906842624)"
    using to_double_eval [of 0 "(- 3) * (3602879701896397 / 9007199254740992)"]
    by (simp add: pow2_def round_half_even_def Let_def)
  have s: "to_double (5404319552844595 / 4503599627370496
                        + - (1351079888211149 / 1125899906842624))
             = - 1 / 4503599627370496"
    using to_double_eval [of "- 52" "5404319552844595 / 4503599627370496
                                       + - (1351079888211149 / 1125899906842624)"]
    by (simp add: pow2_def round_half_even_def Let_def)
  show ?thesis
    by (simp only: weighted_sum_def ia ib d06 d04 pa pb s)
qed

lemma mix_channel_2_minus_3: "mix_channel 2 (- 3) = 255"
proof -
  have t: "to_double (1148417904979476479 / 4503599627370496) = 255"
    using to_double_eval [of 7 "1148417904979476479 / 4503599627370496"]
    by (simp add: pow2_def round_half_even_def Let_def)
  have c: "\<lceil>- (1 / 1148417904979476480 :: real)\<rceil> = 0"
    by (simp add: ceiling_eq_iff)
  have "py_mod (- 1 / 4503599627370496) 255 = 255"
    by (simp add: py_mod_def fmod_def py_int_def Let_def c t)
  then show ?thesis
    by (simp add: mix_channel_def weighted_sum_2_minus_3 py_int_def)
qed

lemma mixed_color_out_of_range: "mixed_color (2, 2, 2) (- 3, - 3, - 3) = (205, 205, 255)"
  by (simp add: mixed_color_def mix_channel_2_minus_3 brightness_test Let_def)

text \<open>The mixed colour of colours whose channels are not negative.\<close>

lemma mixed_color_formula:
  assumes "0 \<le> r1" "0 \<le> g1" "0 \<le> b1" "0 \<le> r2" "0 \<le> g2" "0 \<le> b2"
  shows "mixed_color (r1, g1, b1) (r2, g2, b2) =
     (let r = \<lfloor>weighted_sum r1 r2\<rfloor> mod 255;
          g = \<lfloor>weighted_sum g1 g2\<rfloor> mod 255;
          b = \<lfloor>weighted_sum b1 b2\<rfloor> mod 255;
          darker = (\<lambda>v. max 50 (v - 50))
      in if (of_int (r + g + b) :: real) / 3 > 200 then
           (if r > g \<and> r > b then (r, darker g, darker b)
            else if g > r \<and> g > b then (darker r, g, darker b)
            else (darker r, darker g, b))
         else (r, g, b))"
proof -
  have mean: "((of_int n :: real) / 3 > 200) = (600 < n)" for n :: int
    by auto
  from assms show ?thesis
    by (simp only: mixed_color_def mix_channel_floor brightness_test mean Let_def prod.case)
qed

lemma mixed_color_range:
  assumes "valid_color c1" "valid_color c2" "mixed_color c1 c2 = (r, g, b)"
  shows "0 \<le> r \<and> r \<le> 254 \<and> 0 \<le> g \<and> g \<le> 254 \<and> 0 \<le> b \<and> b \<le> 254"
proof -
  obtain r1 g1 b1 r2 g2 b2 where c: "c1 = (r1, g1, b1)" "c2 = (r2, g2, b2)"
    by (metis prod_cases3)
  from assms(1,2) have nn: "0 \<le> r1" "0 \<le> g1" "0 \<le> b1" "0 \<le> r2" "0 \<le> g2" "0 \<le> b2"
    by (simp_all add: c valid_color_def)
  note bounds =
    mix_channel_range [OF nn(1) nn(4)] mix_channel_range [OF nn(2) nn(5)]
    mix_channel_range [OF nn(3) nn(6)]
  from assms(3) bounds show ?thesis
    unfolding c mixed_color_def Let_def by (auto split: if_splits)
qed

lemma mixed_color_250: "mixed_color (250, 250, 250) (250, 250, 250) = (200, 200, 250)"
  by (simp add: mixed_color_def mix_channel_250_250 brightness_test Let_def)

lemma mixed_color_200_100: "mixed_color (200, 200, 200) (100, 100, 100) = (160, 160, 160)"
  by (simp add: mixed_color_def mix_channel_200_100 brightness_test Let_def)

lemma mixed_color_6_1: "mixed_color (6, 6, 6) (1, 1, 1) = (3, 3, 3)"
  by (simp add: mixed_color_def mix_channel_6_1 brightness_test Let_def)

lemma mixed_color_white: "mixed_color (255, 255, 255) (255, 255, 255) = (0, 0, 0)"
  by (simp add: mixed_color_def mix_channel_255_255 brightness_test Let_def)

text \<open>Both balls leave \<^verbatim>\<open>_mix_colors\<close> with the mixed colour, also when they are one object.\<close>

lemma mix_colors_color:
  "color (mix_colors h ball1 ball2 ball1) = mixed_color (color (h ball1)) (color (h ball2))"
  "color (mix_colors h ball1 ball2 ball2) = mixed_color (color (h ball1)) (color (h ball2))"
  by (simp_all add: mix_colors_def Let_def)

text \<open>
  Claim C3, as the code has it. Mixing \<open>(250, 250, 250)\<close> with \<open>(250, 250, 250)\<close>: each
  mixed channel is 250, the brightness is 250, no channel is strictly greater than the
  others, so the last branch darkens red and green to 200 and leaves blue at 250. Both
  balls get the colour \<open>(200, 200, 250)\<close>.
\<close>

theorem mix_colors_near_white:
  "color (h ball1) = (250, 250, 250) \<Longrightarrow> color (h ball2) = (250, 250, 250) \<Longrightarrow>
   (mix_channel 250 250, mix_channel 250 250, mix_channel 250 250) = (250, 250, 250) \<and>
   color (mix_colors h ball1 ball2 ball1) = (200, 200, 250) \<and>
   color (mix_colors h ball1 ball2 ball2) = (200, 200, 250)"
  by (simp add: mix_colors_color mixed_color_250 mix_channel_250_250)

theorem mix_colors_near_white_witness:
  "color (mix_colors ((\<lambda>_. no_ball)(0 := no_ball\<lparr>color := (250, 250, 250)\<rparr>,
                                       1 := no_ball\<lparr>color := (250, 250, 250)\<rparr>)) 0 1 0)
     = (200, 200, 250) \<and>
   color (mix_colors ((\<lambda>_. no_ball)(0 := no_ball\<lparr>color := (250, 250, 250)\<rparr>,
                                       1 := no_ball\<lparr>color := (250, 250, 250)\<rparr>)) 0 1 1)
     = (200, 200, 250)"
  using mix_colors_near_white
          [of "(\<lambda>_. no_ball)(0 := no_ball\<lparr>color := (250, 250, 250)\<rparr>,
                                 1 := no_ball\<lparr>color := (250, 250, 250)\<rparr>)" 0 1]
  by simp

text \<open>Claim C3 as it is written fails: the colour of the first ball is not \<open>(200, 200, 200)\<close>.\<close>

theorem mix_colors_near_white_counterexample:
  "color (mix_colors ((\<lambda>_. no_ball)(0 := no_ball\<lparr>color := (250, 250, 250)\<rparr>,
                                       1 := no_ball\<lparr>color := (250, 250, 250)\<rparr>)) 0 1 0)
     \<noteq> (200, 200, 200)"
  by (simp add: mix_colors_color mixed_color_250)

text \<open>
  Claim C4, as the code has it. For every two colours with channels from 0 to 255, each
  mixed channel is \<open>\<lfloor>s\<rfloor> mod 255\<close>, where \<open>s\<close> is \<open>c1 * 0.6 + c2 * 0.4\<close> as double
  precision computes it: the two products and the sum are each rounded to the nearest
  double. When the mean of the three mixed channels is above 200: if red is strictly
  the greatest, red stays and green and blue become \<open>max 50 (v - 50)\<close>; else if green is
  strictly the greatest, green stays and red and blue are darkened so; in every other
  case red and green are darkened and blue stays. Otherwise the mixed channels are the
  result. Both balls get the result.
\<close>

theorem mix_colors_formula:
  "color (h ball1) = (r1, g1, b1) \<Longrightarrow> color (h ball2) = (r2, g2, b2) \<Longrightarrow>
   valid_color (r1, g1, b1) \<Longrightarrow> valid_color (r2, g2, b2) \<Longrightarrow>
   (let r = \<lfloor>weighted_sum r1 r2\<rfloor> mod 255;
        g = \<lfloor>weighted_sum g1 g2\<rfloor> mod 255;
        b = \<lfloor>weighted_sum b1 b2\<rfloor> mod 255;
        darker = (\<lambda>v. max 50 (v - 50));
        result =
          (if (of_int (r + g + b) :: real) / 3 > 200 then
             (if r > g \<and> r > b then (r, darker g, darker b)
              else if g > r \<and> g > b then (darker r, g, darker b)
              else (darker r, darker g, b))
           else (r, g, b))
    in color (mix_colors h ball1 ball2 ball1) = result \<and>
       color (mix_colors h ball1 ball2 ball2) = result)"
proof -
  assume c: "color (h ball1) = (r1, g1, b1)" "color (h ball2) = (r2, g2, b2)"
    and v: "valid_color (r1, g1, b1)" "valid_color (r2, g2, b2)"
  from v have nn: "0 \<le> r1" "0 \<le> g1" "0 \<le> b1" "0 \<le> r2" "0 \<le> g2" "0 \<le> b2"
    by (simp_all add: valid_color_def)
  show ?thesis
    unfolding mix_colors_color c mixed_color_formula [OF nn]
    by (simp only: Let_def simp_thms)
qed

text \<open>
  Dark colours whose sum rounds below 4, and bright colours whose blue sum rounds below
  93, so that the mean is exactly 200 and nothing is darkened.
\<close>

theorem mix_colors_formula_witness:
  "color (mix_colors ((\<lambda>_. no_ball)(0 := no_ball\<lparr>color := (6, 6, 6)\<rparr>,
                                       1 := no_ball\<lparr>color := (1, 1, 1)\<rparr>)) 0 1 0)
     = (3, 3, 3) \<and>
   color (mix_colors ((\<lambda>_. no_ball)(0 := no_ball\<lparr>color := (6, 6, 6)\<rparr>,
                                       1 := no_ball\<lparr>color := (1, 1, 1)\<rparr>)) 0 1 1)
     = (3, 3, 3) \<and>
   color (mix_colors ((\<lambda>_. no_ball)(0 := no_ball\<lparr>color := (254, 254, 149)\<rparr>,
                                       1 := no_ball\<lparr>color := (254, 254, 9)\<rparr>)) 0 1 0)
     = (254, 254, 92) \<and>
   color (mix_colors ((\<lambda>_. no_ball)(0 := no_ball\<lparr>color := (254, 254, 149)\<rparr>,
                                       1 := no_ball\<lparr>color := (254, 254, 9)\<rparr>)) 0 1 1)
     = (254, 254, 92)"
  using mix_colors_formula
          [of "(\<lambda>_. no_ball)(0 := no_ball\<lparr>color := (6, 6, 6)\<rparr>,
                                 1 := no_ball\<lparr>color := (1, 1, 1)\<rparr>)"
              0 6 6 6 1 1 1 1]
        mix_colors_formula
          [of "(\<lambda>_. no_ball)(0 := no_ball\<lparr>color := (254, 254, 149)\<rparr>,
                                 1 := no_ball\<lparr>color := (254, 254, 9)\<rparr>)"
              0 254 254 149 1 254 254 9]
  by (simp add: valid_color_def Let_def weighted_sum_6_1 weighted_sum_254_254 weighted_sum_149_9)

text \<open>
  Claim C4 as it is written fails: for the channels 6 and 1 the exact value of
  \<open>6 * 0.6 + 1 * 0.4\<close> is 4, and the code writes 3.
\<close>

theorem mix_colors_formula_counterexample:
  "color (mix_colors ((\<lambda>_. no_ball)(0 := no_ball\<lparr>color := (6, 6, 6)\<rparr>,
                                       1 := no_ball\<lparr>color := (1, 1, 1)\<rparr>)) 0 1 0)
     = (3, 3, 3) \<and>
   \<lfloor>of_int 6 * 0.6 + of_int 1 * (0.4::real)\<rfloor> mod 255 = 4"
  by (simp add: mix_colors_color mixed_color_6_1)

text \<open>
  Claim C9. When both balls have colours with channels from 0 to 255, after
  \<^verbatim>\<open>_mix_colors\<close> every channel of both balls is between 0 and 254, so no channel
  is 255 and neither ball is pure white.
\<close>

theorem mix_colors_channel_range:
  "valid_color (color (h ball1)) \<Longrightarrow> valid_color (color (h ball2)) \<Longrightarrow>
   (case color (mix_colors h ball1 ball2 ball1) of (r, g, b) \<Rightarrow>
      0 \<le> r \<and> r \<le> 254 \<and> 0 \<le> g \<and> g \<le> 254 \<and> 0 \<le> b \<and> b \<le> 254) \<and>
   (case color (mix_colors h ball1 ball2 ball2) of (r, g, b) \<Rightarrow>
      0 \<le> r \<and> r \<le> 254 \<and> 0 \<le> g \<and> g \<le> 254 \<and> 0 \<le> b \<and> b \<le> 254) \<and>
   color (mix_colors h ball1 ball2 ball1) \<noteq> (255, 255, 255) \<and>
   color (mix_colors h ball1 ball2 ball2) \<noteq> (255, 255, 255)"
proof -
  assume v: "valid_color (color (h ball1))" "valid_color (color (h ball2))"
  obtain r g b where m: "mixed_color (color (h ball1)) (color (h ball2)) = (r, g, b)"
    by (metis prod_cases3)
  from mixed_color_range [OF v m] show ?thesis
    by (simp add: mix_colors_color m)
qed

text \<open>Two white balls: every channel becomes 0.\<close>

theorem mix_colors_channel_range_witness:
  "valid_color (255, 255, 255) \<and>
   color (mix_colors ((\<lambda>_. no_ball)(0 := no_ball\<lparr>color := (255, 255, 255)\<rparr>,
                                       1 := no_ball\<lparr>color := (255, 255, 255)\<rparr>)) 0 1 0)
     = (0, 0, 0) \<and>
   color (mix_colors ((\<lambda>_. no_ball)(0 := no_ball\<lparr>color := (255, 255, 255)\<rparr>,
                                       1 := no_ball\<lparr>color := (255, 255, 255)\<rparr>)) 0 1 1)
     = (0, 0, 0)"
  using mix_colors_channel_range
          [of "(\<lambda>_. no_ball)(0 := no_ball\<lparr>color := (255, 255, 255)\<rparr>,
                                 1 := no_ball\<lparr>color := (255, 255, 255)\<rparr>)" 0 1]
  by (simp add: valid_color_def mix_colors_color mixed_color_white)

subsection \<open>The loops of GameLogic\<close>

text \<open>
  Removing, one after the other, the elements that a test marks, each time the first
  occurrence, leaves the elements that the test does not mark, and never raises.
\<close>

lemma foldE_list_remove_filter_gen:
  "\<forall>a\<in>set ys. \<not> P a \<Longrightarrow>
   foldE list_remove (filter P xs) (ys @ xs) = Inr (ys @ filter (\<lambda>a. \<not> P a) xs)"
proof (induction xs arbitrary: ys)
  case Nil
  then show ?case by simp
next
  case (Cons a xs)
  show ?case
  proof (cases "P a")
    case True
    with Cons.prems have "a \<notin> set ys" by blast
    then have "remove1 a (ys @ a # xs) = ys @ xs"
      by (simp add: remove1_append)
    with True Cons.IH [OF Cons.prems] show ?thesis
      by (simp add: list_remove_def)
  next
    case False
    with Cons.prems have "\<forall>b\<in>set (ys @ [a]). \<not> P b" by simp
    from Cons.IH [OF this] False show ?thesis by simp
  qed
qed

lemma foldE_list_remove_filter:
  "foldE list_remove (filter P xs) xs = Inr (filter (\<lambda>a. \<not> P a) xs)"
  using foldE_list_remove_filter_gen [of "[]" P xs] by simp

lemma foldE_guarded_remove_filter_gen:
  "\<forall>a\<in>set ys. \<not> P a \<Longrightarrow>
   foldE (\<lambda>ball bs. if ball \<in> set bs then list_remove ball bs else Inr bs)
         (filter P xs) (ys @ xs) = Inr (ys @ filter (\<lambda>a. \<not> P a) xs)"
proof (induction xs arbitrary: ys)
  case Nil
  then show ?case by simp
next
  case (Cons a xs)
  show ?case
  proof (cases "P a")
    case True
    with Cons.prems have "a \<notin> set ys" by blast
    then have "remove1 a (ys @ a # xs) = ys @ xs"
      by (simp add: remove1_append)
    with True Cons.IH [OF Cons.prems] show ?thesis
      by (simp add: list_remove_def)
  next
    case False
    with Cons.prems have "\<forall>b\<in>set (ys @ [a]). \<not> P b" by simp
    from Cons.IH [OF this] False show ?thesis by simp
  qed
qed

lemma foldE_guarded_remove_filter:
  "foldE (\<lambda>ball bs. if ball \<in> set bs then list_remove ball bs else Inr bs)
         (filter P xs) xs = Inr (filter (\<lambda>a. \<not> P a) xs)"
  using foldE_guarded_remove_filter_gen [of "[]" P xs] by simp

lemma check_delete_zone_filter:
  "check_delete_zone g = Inr (g\<lparr> balls := filter (\<lambda>ball. \<not> in_zone g ball) (balls g) \<rparr>)"
  unfolding check_delete_zone_def Let_def in_zone_def is_in_delete_zone_def
  by (simp add: foldE_list_remove_filter)

text \<open>The suction loop changes velocities only, so it marks the balls by the store it starts from.\<close>

lemma same_place_refl: "same_place h h"
  by (simp add: same_place_def)

lemma same_place_trans: "same_place h h' \<Longrightarrow> same_place h' h'' \<Longrightarrow> same_place h h''"
  by (simp add: same_place_def)

lemma collected_same_place: "same_place h h' \<Longrightarrow> collected h' mouse reach ball = collected h mouse reach ball"
  by (simp add: same_place_def collected_def suction_distance_def)

lemma suction_ball_result:
  assumes "reach \<noteq> 0"
  shows "\<exists>h'. suction_ball mouse reach ball (h, inv_list, rm) =
            Inr (h', inv_list @ (if collected h mouse reach ball then [ball] else []),
                     rm @ (if collected h mouse reach ball then [ball] else []))
          \<and> same_place h h'"
  using assms
  by (auto simp: suction_ball_def collected_def suction_distance_def same_place_def Let_def
           split: prod.splits)

lemma suction_loop_result:
  assumes "reach \<noteq> 0"
  shows "\<exists>h'. foldE (suction_ball mouse reach) bs (h, inv_list, rm) =
            Inr (h', inv_list @ filter (collected h mouse reach) bs,
                     rm @ filter (collected h mouse reach) bs)
          \<and> same_place h h'"
proof (induction bs arbitrary: h inv_list rm)
  case Nil
  show ?case by (simp add: same_place_refl)
next
  case (Cons b bs)
  from suction_ball_result [OF assms, of mouse b h inv_list rm]
  obtain h1 where
    step: "suction_ball mouse reach b (h, inv_list, rm) =
            Inr (h1, inv_list @ (if collected h mouse reach b then [b] else []),
                     rm @ (if collected h mouse reach b then [b] else []))"
    and sp1: "same_place h h1"
    by blast
  from Cons.IH [of h1 "inv_list @ (if collected h mouse reach b then [b] else [])"
                     "rm @ (if collected h mouse reach b then [b] else [])"]
  obtain h2 where
    rest: "foldE (suction_ball mouse reach) bs
             (h1, inv_list @ (if collected h mouse reach b then [b] else []),
                  rm @ (if collected h mouse reach b then [b] else [])) =
           Inr (h2, (inv_list @ (if collected h mouse reach b then [b] else []))
                      @ filter (collected h1 mouse reach) bs,
                    (rm @ (if collected h mouse reach b then [b] else []))
                      @ filter (collected h1 mouse reach) bs)"
    and sp2: "same_place h1 h2"
    by blast
  have eq: "collected h1 mouse reach = collected h mouse reach"
    using collected_same_place [OF sp1] by (simp add: fun_eq_iff)
  have "foldE (suction_ball mouse reach) (b # bs) (h, inv_list, rm) =
          Inr (h2, inv_list @ filter (collected h mouse reach) (b # bs),
                   rm @ filter (collected h mouse reach) (b # bs))"
    using step rest by (simp add: eq)
  with same_place_trans [OF sp1 sp2] show ?case by blast
qed

lemma process_suction_result:
  assumes "suction_range g \<noteq> 0"
  shows "\<exists>h'. process_suction g =
            Inr (g\<lparr> heap := h',
                     inventory := inventory g @
                        filter (collected (heap g) (suction_mouse_pos g) (suction_range g)) (balls g),
                     balls := filter (\<lambda>ball. \<not> collected (heap g) (suction_mouse_pos g)
                                                  (suction_range g) ball) (balls g) \<rparr>)
          \<and> same_place (heap g) h'"
proof -
  from suction_loop_result [OF assms, of "suction_mouse_pos g" "balls g" "heap g" "inventory g" "[]"]
  obtain h' where
    loop: "foldE (suction_ball (suction_mouse_pos g) (suction_range g)) (balls g)
             (heap g, inventory g, []) =
           Inr (h', inventory g @
                      filter (collected (heap g) (suction_mouse_pos g) (suction_range g)) (balls g),
                    [] @ filter (collected (heap g) (suction_mouse_pos g) (suction_range g)) (balls g))"
    and sp: "same_place (heap g) h'"
    by blast
  have "process_suction g =
          Inr (g\<lparr> heap := h',
                   inventory := inventory g @
                      filter (collected (heap g) (suction_mouse_pos g) (suction_range g)) (balls g),
                   balls := filter (\<lambda>ball. \<not> collected (heap g) (suction_mouse_pos g)
                                                (suction_range g) ball) (balls g) \<rparr>)"
    unfolding process_suction_def loop
    by (simp add: foldE_guarded_remove_filter)
  with sp show ?thesis by blast
qed

text \<open>
  Up to the delete-zone check, \<^verbatim>\<open>update\<close> changes the store, and moves the balls
  that the suction collects from the active list to the end of the inventory.
\<close>

lemma update_to_suction_result:
  assumes "suction_range g \<noteq> 0"
  obtains h' C where
    "update_to_suction g =
       Inr (g\<lparr> heap := h', inventory := inventory g @ filter C (balls g),
                balls := filter (\<lambda>ball. \<not> C ball) (balls g) \<rparr>)"
proof (cases "suction_active g")
  case False
  have "update_to_suction g =
          Inr (g\<lparr> heap := heap (handle_collisions (update_balls g)),
                   inventory := inventory g @ filter (\<lambda>_. False) (balls g),
                   balls := filter (\<lambda>ball. \<not> (\<lambda>_. False) ball) (balls g) \<rparr>)"
    using False by (simp add: update_to_suction_def handle_collisions_def update_balls_def Let_def)
  then show ?thesis by (rule that)
next
  case True
  let ?g2 = "handle_collisions (update_balls g)"
  let ?C = "collected (heap ?g2) (suction_mouse_pos ?g2) (suction_range ?g2)"
  have f: "suction_range ?g2 \<noteq> 0" "balls ?g2 = balls g" "inventory ?g2 = inventory g"
    using assms by (simp_all add: handle_collisions_def update_balls_def Let_def)
  from process_suction_result [OF f(1)] obtain h' where
    "process_suction ?g2 =
       Inr (?g2\<lparr> heap := h', inventory := inventory ?g2 @ filter ?C (balls ?g2),
                 balls := filter (\<lambda>ball. \<not> ?C ball) (balls ?g2) \<rparr>)"
    by blast
  then have "update_to_suction g =
       Inr (g\<lparr> heap := h', inventory := inventory g @ filter ?C (balls g),
                balls := filter (\<lambda>ball. \<not> ?C ball) (balls g) \<rparr>)"
    using True unfolding f(2,3)
    by (simp add: update_to_suction_def Let_def handle_collisions_def update_balls_def)
  then show ?thesis by (rule that)
qed

text \<open>
  A whole call of \<^verbatim>\<open>update\<close>: it does not raise when the suction range is not
  zero, and its last phase keeps the active balls that are outside the delete zone.
\<close>

lemma update_result:
  assumes "suction_range g \<noteq> 0"
  obtains g3 C where
    "update_to_suction g = Inr g3"
    "update g = Inr (g3\<lparr> balls := filter (\<lambda>ball. \<not> in_zone g3 ball) (balls g3) \<rparr>)"
    "balls g3 = filter (\<lambda>ball. \<not> C ball) (balls g)"
    "inventory g3 = inventory g @ filter C (balls g)"
    "next_ref g3 = next_ref g"
    "fixed_fields g3 = fixed_fields g"
proof -
  from update_to_suction_result [OF assms] obtain h' C where
    u: "update_to_suction g =
          Inr (g\<lparr> heap := h', inventory := inventory g @ filter C (balls g),
                   balls := filter (\<lambda>ball. \<not> C ball) (balls g) \<rparr>)"
    by blast
  let ?g3 = "g\<lparr> heap := h', inventory := inventory g @ filter C (balls g),
                 balls := filter (\<lambda>ball. \<not> C ball) (balls g) \<rparr>"
  have "update g = Inr (?g3\<lparr> balls := filter (\<lambda>ball. \<not> in_zone ?g3 ball) (balls ?g3) \<rparr>)"
    unfolding update_def u by (simp add: check_delete_zone_filter)
  with u show ?thesis
    by (rule that) (simp_all add: fixed_fields_def)
qed

lemma filter_split_set: "set (filter (\<lambda>a. \<not> C a) xs) \<union> set (filter C xs) = set xs"
  by auto

lemma filter_split_length: "length (filter (\<lambda>a. \<not> C a) xs) + length (filter C xs) = length xs"
  using sum_length_filter_compl [of C xs] by simp

lemma filter_split_distinct:
  "distinct (xs @ ys) \<Longrightarrow> distinct (filter (\<lambda>a. \<not> C a) xs @ ys @ filter C xs)"
  by (induction xs) auto

subsection \<open>Invariants of the reachable states\<close>

lemma reachable_fixed_fields: "reachable g \<Longrightarrow> fixed_fields g"
proof (induction rule: reachable.induct)
  case (init width height)
  show ?case by (simp add: fixed_fields_def GameLogic_init_def)
next
  case (add g px py c d)
  then show ?case by (simp add: fixed_fields_def add_ball_def Let_def)
next
  case (upd g g')
  from upd.IH have "suction_range g \<noteq> 0" by (simp add: fixed_fields_def)
  from update_result [OF this] obtain g3 where
    "update g = Inr (g3\<lparr> balls := filter (\<lambda>ball. \<not> in_zone g3 ball) (balls g3) \<rparr>)"
    "fixed_fields g3 = fixed_fields g"
    by metis
  with upd show ?case by (auto simp: fixed_fields_def)
next
  case (eject g mouse_x mouse_y vel d)
  then show ?case by (simp add: fixed_fields_def eject_ball_def Let_def)
next
  case (start g mouse_x mouse_y)
  then show ?case by (simp add: fixed_fields_def start_suction_def)
next
  case (stop g)
  then show ?case by (simp add: fixed_fields_def stop_suction_def)
qed

lemma owned_add_ball: "owned g \<Longrightarrow> owned (snd (add_ball g px py c d))"
  by (auto simp: owned_def add_ball_def Let_def less_SucI)

lemma owned_eject_ball: "owned g \<Longrightarrow> owned (snd (eject_ball g mouse_x mouse_y vel d))"
proof (cases "inventory g" rule: rev_cases)
  case Nil
  assume "owned g"
  with Nil show ?thesis by (simp add: eject_ball_def)
next
  case (snoc rest ball)
  assume "owned g"
  with snoc show ?thesis
    by (auto simp: owned_def eject_ball_def Let_def)
qed

lemma owned_update:
  assumes "owned g" "suction_range g \<noteq> 0" "update g = Inr g'"
  shows "owned g'"
proof -
  from update_result [OF assms(2)] obtain g3 C where
    r: "update g = Inr (g3\<lparr> balls := filter (\<lambda>ball. \<not> in_zone g3 ball) (balls g3) \<rparr>)"
       "balls g3 = filter (\<lambda>ball. \<not> C ball) (balls g)"
       "inventory g3 = inventory g @ filter C (balls g)"
       "next_ref g3 = next_ref g"
    by metis
  from assms(1) have d: "distinct (balls g3 @ inventory g3)"
    unfolding r owned_def using filter_split_distinct [of "balls g" "inventory g" C] by simp
  from assms(1) have b: "\<forall>ball\<in>set (balls g3 @ inventory g3). ball < next_ref g3"
    unfolding r owned_def by auto
  from r(1) assms(3) have g': "g' = g3\<lparr> balls := filter (\<lambda>ball. \<not> in_zone g3 ball) (balls g3) \<rparr>"
    by simp
  from d b show ?thesis unfolding g' owned_def by auto
qed

lemma reachable_owned: "reachable g \<Longrightarrow> owned g"
proof (induction rule: reachable.induct)
  case (init width height)
  show ?case by (simp add: owned_def GameLogic_init_def)
next
  case (add g px py c d)
  then show ?case by (simp add: owned_add_ball)
next
  case (upd g g')
  from reachable_fixed_fields [OF upd.hyps(1)] have "suction_range g \<noteq> 0"
    by (simp add: fixed_fields_def)
  with upd show ?case by (blast intro: owned_update)
next
  case (eject g mouse_x mouse_y vel d)
  then show ?case by (simp add: owned_eject_ball)
next
  case (start g mouse_x mouse_y)
  then show ?case by (simp add: owned_def start_suction_def)
next
  case (stop g)
  then show ?case by (simp add: owned_def stop_suction_def)
qed

subsection \<open>The example runs, evaluated\<close>

lemmas run_defs =
  update_def update_to_suction_def update_balls_def handle_collisions_def collide_pair_def
  is_colliding_def distance_to_def mix_colors_def mixed_color_200_100
  process_suction_def suction_ball_def check_delete_zone_def list_remove_def
  Ball_update_def default_friction_def Let_def

lemmas build_defs =
  start_suction_def add_ball_def GameLogic_init_def Ball_init_def example_draws_def Let_def

lemma reachable_one_ball_game: "reachable one_ball_game"
  unfolding one_ball_game_def by (intro reachable.start reachable.add reachable.init)

lemma reachable_two_ball_game: "reachable two_ball_game"
  unfolding two_ball_game_def by (intro reachable.start reachable.add reachable.init)

lemma reachable_zone_game: "reachable zone_game"
  unfolding zone_game_def by (intro reachable.start reachable.add reachable.init)

lemma update_one_ball_game: "update one_ball_game = Inr stored_game"
  by (simp add: one_ball_game_def build_defs run_defs stored_game_def)

lemma update_two_ball_game: "update two_ball_game = Inr two_stored_game"
  by (simp add: two_ball_game_def build_defs run_defs two_stored_game_def)

lemma zone_game_to_suction: "update_to_suction zone_game = Inr zone_game_sucked"
  by (simp add: zone_game_def build_defs run_defs zone_game_sucked_def)

lemma update_zone_game: "update zone_game = Inr (zone_game_sucked\<lparr> balls := [] \<rparr>)"
  unfolding update_def zone_game_to_suction
  by (simp add: check_delete_zone_def list_remove_def zone_game_sucked_def)

subsection \<open>Suction\<close>

text \<open>
  Claim C1 at one input. The ball is at \<open>(450, 300)\<close> when the suction phase of
  \<^verbatim>\<open>update\<close> starts, 50 to the right of the mouse at \<open>(400, 300)\<close>, with the
  velocity \<open>(1.96, 0)\<close>. The phase adds \<open>(+0.75, 0)\<close> to the velocity: the impulse has
  the magnitude 0.75 and points from the mouse to the ball, away from the focus.
\<close>

theorem suction_pushes_away:
  "x (heap (handle_collisions (update_balls pull_game)) 0) = 450 \<and>
   y (heap (handle_collisions (update_balls pull_game)) 0) = 300 \<and>
   velocity (heap (handle_collisions (update_balls pull_game)) 0) = (1.96, 0) \<and>
   suction_mouse_pos (handle_collisions (update_balls pull_game)) = (400, 300) \<and>
   (case process_suction (handle_collisions (update_balls pull_game)) of
      Inl e \<Rightarrow> False
    | Inr g \<Rightarrow> velocity (heap g 0) = (1.96 + 0.75, 0) \<and> balls g = [0] \<and>
              update pull_game = Inr g)"
  by (simp add: pull_game_def build_defs run_defs)

subsection \<open>Ownership of the balls\<close>

lemma counts_add_ball:
  assumes "owned g"
  shows "fst (add_ball g px py c d) \<notin> all_balls g"
    and "all_balls (snd (add_ball g px py c d)) = insert (fst (add_ball g px py c d)) (all_balls g)"
    and "ball_count (snd (add_ball g px py c d)) = ball_count g + 1"
  using assms by (auto simp: owned_def add_ball_def all_balls_def ball_count_def Let_def)

lemma counts_eject_ball:
  shows "all_balls (snd (eject_ball g mouse_x mouse_y vel d)) = all_balls g"
    and "ball_count (snd (eject_ball g mouse_x mouse_y vel d)) = ball_count g"
proof -
  show "all_balls (snd (eject_ball g mouse_x mouse_y vel d)) = all_balls g"
  proof (cases "inventory g" rule: rev_cases)
    case Nil
    then show ?thesis by (simp add: eject_ball_def)
  next
    case (snoc rest ball)
    then show ?thesis by (auto simp: eject_ball_def all_balls_def Let_def)
  qed
  show "ball_count (snd (eject_ball g mouse_x mouse_y vel d)) = ball_count g"
  proof (cases "inventory g" rule: rev_cases)
    case Nil
    then show ?thesis by (simp add: eject_ball_def)
  next
    case (snoc rest ball)
    then show ?thesis by (simp add: eject_ball_def ball_count_def Let_def)
  qed
qed

lemma counts_process_suction:
  assumes "suction_range g \<noteq> 0"
  obtains g' where "process_suction g = Inr g'" "all_balls g' = all_balls g"
    "ball_count g' = ball_count g"
proof -
  let ?C = "collected (heap g) (suction_mouse_pos g) (suction_range g)"
  from process_suction_result [OF assms] obtain h' where
    p: "process_suction g =
          Inr (g\<lparr> heap := h', inventory := inventory g @ filter ?C (balls g),
                   balls := filter (\<lambda>ball. \<not> ?C ball) (balls g) \<rparr>)"
    by blast
  show ?thesis
  proof (rule that [OF p])
    show "all_balls (g\<lparr> heap := h', inventory := inventory g @ filter ?C (balls g),
                   balls := filter (\<lambda>ball. \<not> ?C ball) (balls g) \<rparr>) = all_balls g"
      by (auto simp: all_balls_def)
    show "ball_count (g\<lparr> heap := h', inventory := inventory g @ filter ?C (balls g),
                   balls := filter (\<lambda>ball. \<not> ?C ball) (balls g) \<rparr>) = ball_count g"
      using filter_split_length [of ?C "balls g"] by (simp add: ball_count_def)
  qed
qed

lemma counts_update:
  assumes "suction_range g \<noteq> 0" "distinct (balls g @ inventory g)"
  obtains g3 g' where "update_to_suction g = Inr g3" "update g = Inr g'"
    "all_balls g3 = all_balls g" "ball_count g3 = ball_count g"
    "inventory g' = inventory g3"
    "all_balls g' = all_balls g - {ball \<in> set (balls g3). in_zone g3 ball}"
    "ball_count g' + length (filter (in_zone g3) (balls g3)) = ball_count g"
proof -
  from assms(1) obtain g3 C where
    r: "update_to_suction g = Inr g3"
       "update g = Inr (g3\<lparr> balls := filter (\<lambda>ball. \<not> in_zone g3 ball) (balls g3) \<rparr>)"
       "balls g3 = filter (\<lambda>ball. \<not> C ball) (balls g)"
       "inventory g3 = inventory g @ filter C (balls g)"
       "next_ref g3 = next_ref g"
       "fixed_fields g3 = fixed_fields g"
    by (rule update_result)
  define g' where "g' = g3\<lparr> balls := filter (\<lambda>ball. \<not> in_zone g3 ball) (balls g3) \<rparr>"
  have g'_fields: "balls g' = filter (\<lambda>ball. \<not> in_zone g3 ball) (balls g3)"
    "inventory g' = inventory g3"
    by (simp_all add: g'_def)
  have u: "update g = Inr g'" unfolding g'_def by (rule r(2))
  have s3: "all_balls g3 = all_balls g"
    unfolding all_balls_def r(3,4) by auto
  have c3: "ball_count g3 = ball_count g"
    unfolding ball_count_def r(3,4) using filter_split_length [of C "balls g"] by simp
  from assms(2) have "distinct (balls g3 @ inventory g3)"
    unfolding r(3,4) using filter_split_distinct [of "balls g" "inventory g" C] by simp
  then have disj: "set (balls g3) \<inter> set (inventory g3) = {}" by simp
  have "all_balls g' = all_balls g3 - {ball \<in> set (balls g3). in_zone g3 ball}"
    unfolding all_balls_def g'_fields using disj by auto
  then have s': "all_balls g' = all_balls g - {ball \<in> set (balls g3). in_zone g3 ball}"
    by (simp add: s3)
  have "ball_count g' + length (filter (in_zone g3) (balls g3)) = ball_count g3"
    unfolding ball_count_def g'_fields
    using filter_split_length [of "in_zone g3" "balls g3"] by simp
  then have c': "ball_count g' + length (filter (in_zone g3) (balls g3)) = ball_count g"
    by (simp add: c3)
  from r(1) u s3 c3 g'_fields(2) s' c' show ?thesis by (rule that)
qed

text \<open>
  Claim C5, as the code has it. In every state that the public methods reach, no ball is
  twice in the active list and the inventory together. \<^verbatim>\<open>add_ball\<close> adds one
  new ball, so the number of balls held grows by one. \<^verbatim>\<open>eject_ball\<close> moves a
  ball from the inventory to the active list or does nothing, so it keeps the balls held
  and their number; so do \<^verbatim>\<open>start_suction\<close>, \<^verbatim>\<open>stop_suction\<close> and a
  suction transfer. \<^verbatim>\<open>update\<close> does not raise, and the balls it drops are
  exactly the active balls that are inside the delete zone when the check runs; the
  number of balls held decreases by their number.
\<close>

theorem ball_ownership:
  assumes "reachable g"
  shows "distinct (balls g @ inventory g) \<and>
         fst (add_ball g px py c d) \<notin> all_balls g \<and>
         all_balls (snd (add_ball g px py c d)) = insert (fst (add_ball g px py c d)) (all_balls g) \<and>
         ball_count (snd (add_ball g px py c d)) = ball_count g + 1 \<and>
         all_balls (snd (eject_ball g mouse_x mouse_y vel d)) = all_balls g \<and>
         ball_count (snd (eject_ball g mouse_x mouse_y vel d)) = ball_count g \<and>
         balls (start_suction g mouse_x mouse_y) = balls g \<and>
         inventory (start_suction g mouse_x mouse_y) = inventory g \<and>
         balls (stop_suction g) = balls g \<and>
         inventory (stop_suction g) = inventory g \<and>
         (\<exists>g'. process_suction g = Inr g' \<and> all_balls g' = all_balls g \<and>
               ball_count g' = ball_count g) \<and>
         (\<exists>g3 g'. update_to_suction g = Inr g3 \<and> update g = Inr g' \<and>
               all_balls g3 = all_balls g \<and> ball_count g3 = ball_count g \<and>
               inventory g' = inventory g3 \<and>
               all_balls g' = all_balls g - {ball \<in> set (balls g3). in_zone g3 ball} \<and>
               ball_count g' + length (filter (in_zone g3) (balls g3)) = ball_count g)"
proof -
  from reachable_owned [OF assms] have o: "owned g" .
  then have dist: "distinct (balls g @ inventory g)" by (simp add: owned_def)
  from reachable_fixed_fields [OF assms] have nz: "suction_range g \<noteq> 0"
    by (simp add: fixed_fields_def)
  have ss: "balls (start_suction g mouse_x mouse_y) = balls g"
    "inventory (start_suction g mouse_x mouse_y) = inventory g"
    "balls (stop_suction g) = balls g" "inventory (stop_suction g) = inventory g"
    by (simp_all add: start_suction_def stop_suction_def)
  from nz obtain gs where
    "process_suction g = Inr gs" "all_balls gs = all_balls g" "ball_count gs = ball_count g"
    by (rule counts_process_suction)
  then have ps: "\<exists>g'. process_suction g = Inr g' \<and> all_balls g' = all_balls g \<and>
               ball_count g' = ball_count g"
    by blast
  from nz dist obtain g3 g' where
    "update_to_suction g = Inr g3" "update g = Inr g'"
    "all_balls g3 = all_balls g" "ball_count g3 = ball_count g"
    "inventory g' = inventory g3"
    "all_balls g' = all_balls g - {ball \<in> set (balls g3). in_zone g3 ball}"
    "ball_count g' + length (filter (in_zone g3) (balls g3)) = ball_count g"
    by (rule counts_update)
  then have up: "\<exists>g3 g'. update_to_suction g = Inr g3 \<and> update g = Inr g' \<and>
               all_balls g3 = all_balls g \<and> ball_count g3 = ball_count g \<and>
               inventory g' = inventory g3 \<and>
               all_balls g' = all_balls g - {ball \<in> set (balls g3). in_zone g3 ball} \<and>
               ball_count g' + length (filter (in_zone g3) (balls g3)) = ball_count g"
    by blast
  from dist counts_add_ball [OF o, of px py c d] counts_eject_ball [of g mouse_x mouse_y vel d]
    ss ps up
  show ?thesis by (intro conjI) 
qed

text \<open>The game with one ball: adding a ball gives two, ejecting from the empty inventory keeps one.\<close>

theorem ball_ownership_witness:
  "reachable one_ball_game \<and>
   distinct (balls one_ball_game @ inventory one_ball_game) \<and>
   ball_count one_ball_game = 1 \<and>
   ball_count (snd (add_ball one_ball_game None None None example_draws)) = 2 \<and>
   ball_count (snd (eject_ball one_ball_game 500 500 None example_draws)) = 1"
proof -
  have c: "ball_count one_ball_game = 1"
    by (simp add: one_ball_game_def build_defs ball_count_def)
  from ball_ownership [OF reachable_one_ball_game, of None None None example_draws 500 500 None]
    reachable_one_ball_game c
  show ?thesis by simp
qed

text \<open>
  Claim C5 as it is written fails for \<^verbatim>\<open>eject_ball\<close>: after the update that
  stored the ball, ejecting succeeds and the number of balls held is not one more.
\<close>

theorem ball_ownership_counterexample:
  "update one_ball_game = Inr stored_game \<and>
   fst (eject_ball stored_game 500 500 (Some (1, 1)) example_draws) = Some 0 \<and>
   ball_count (snd (eject_ball stored_game 500 500 (Some (1, 1)) example_draws))
     \<noteq> ball_count stored_game + 1"
  by (simp add: update_one_ball_game)
     (simp add: stored_game_def eject_ball_def ball_count_def Let_def)

subsection \<open>The delete zone\<close>

text \<open>
  Claim C6. In every reachable state \<^verbatim>\<open>update\<close> does not raise; every ball that
  is active after the suction phase and whose centre is then inside the delete zone is
  in neither list afterwards, every other active ball stays active, and the inventory
  is what the suction phase left: a ball that this call moved to the inventory stays
  there, with its fields, wherever its centre is.
\<close>

theorem delete_zone_removal:
  assumes "reachable g"
  shows "\<exists>g3 g'. update_to_suction g = Inr g3 \<and> update g = Inr g' \<and>
           (\<forall>ball\<in>set (balls g3).
               in_zone g3 ball \<longrightarrow> ball \<notin> set (balls g') \<and> ball \<notin> set (inventory g')) \<and>
           (\<forall>ball\<in>set (balls g3). \<not> in_zone g3 ball \<longrightarrow> ball \<in> set (balls g')) \<and>
           inventory g' = inventory g3 \<and>
           (\<forall>ball\<in>set (balls g). ball \<in> set (inventory g3) \<longrightarrow>
               ball \<in> set (inventory g') \<and> ball \<notin> set (balls g3) \<and> heap g' ball = heap g3 ball)"
proof -
  from reachable_fixed_fields [OF assms] have nz: "suction_range g \<noteq> 0"
    by (simp add: fixed_fields_def)
  from nz obtain g3 C where
    r: "update_to_suction g = Inr g3"
       "update g = Inr (g3\<lparr> balls := filter (\<lambda>ball. \<not> in_zone g3 ball) (balls g3) \<rparr>)"
       "balls g3 = filter (\<lambda>ball. \<not> C ball) (balls g)"
       "inventory g3 = inventory g @ filter C (balls g)"
       "next_ref g3 = next_ref g"
       "fixed_fields g3 = fixed_fields g"
    by (rule update_result)
  define g' where "g' = g3\<lparr> balls := filter (\<lambda>ball. \<not> in_zone g3 ball) (balls g3) \<rparr>"
  have g'_fields: "balls g' = filter (\<lambda>ball. \<not> in_zone g3 ball) (balls g3)"
    "inventory g' = inventory g3" "heap g' = heap g3"
    by (simp_all add: g'_def)
  from reachable_owned [OF assms] have "distinct (balls g @ inventory g)"
    by (simp add: owned_def)
  then have "distinct (balls g3 @ inventory g3)"
    unfolding r(3,4) using filter_split_distinct [of "balls g" "inventory g" C] by simp
  then have disj: "set (balls g3) \<inter> set (inventory g3) = {}"
    by simp
  have a: "\<forall>ball\<in>set (balls g3).
               in_zone g3 ball \<longrightarrow> ball \<notin> set (balls g') \<and> ball \<notin> set (inventory g')"
    using disj unfolding g'_fields by auto
  have b: "\<forall>ball\<in>set (balls g3). \<not> in_zone g3 ball \<longrightarrow> ball \<in> set (balls g')"
    unfolding g'_fields by simp
  have c: "\<forall>ball\<in>set (balls g). ball \<in> set (inventory g3) \<longrightarrow>
               ball \<in> set (inventory g') \<and> ball \<notin> set (balls g3) \<and> heap g' ball = heap g3 ball"
    using disj unfolding g'_fields by auto
  have u: "update g = Inr g'"
    unfolding g'_def by (rule r(2))
  from r(1) u a b g'_fields(2) c show ?thesis by blast
qed

text \<open>
  Two balls inside the zone: the one that the suction collects stays in the inventory,
  the other one is removed.
\<close>

theorem delete_zone_removal_witness:
  "reachable zone_game \<and>
   balls zone_game = [0, 1] \<and> inventory zone_game = [] \<and>
   update_to_suction zone_game = Inr zone_game_sucked \<and>
   balls zone_game_sucked = [1] \<and> inventory zone_game_sucked = [0] \<and>
   in_zone zone_game_sucked 0 \<and> in_zone zone_game_sucked 1 \<and>
   update zone_game = Inr (zone_game_sucked\<lparr> balls := [] \<rparr>)"
proof -
  have b: "balls zone_game = [0, 1] \<and> inventory zone_game = []"
    by (simp add: zone_game_def build_defs)
  have z: "balls zone_game_sucked = [1] \<and> inventory zone_game_sucked = [0] \<and>
           in_zone zone_game_sucked 0 \<and> in_zone zone_game_sucked 1"
    by (simp add: zone_game_sucked_def in_zone_def is_in_delete_zone_def)
  from delete_zone_removal [OF reachable_zone_game] reachable_zone_game b z
    zone_game_to_suction update_zone_game
  show ?thesis by simp
qed

text \<open>
  Claim C10. In every reachable state \<^verbatim>\<open>is_in_delete_zone\<close> holds exactly for
  the points of the rectangle that \<^verbatim>\<open>get_delete_zone_bounds\<close> returns, which are
  the points with \<open>x\<close> in \<open>[width - 100, width]\<close> and \<open>y\<close> in \<open>[0, 100]\<close>; and the
  delete-zone check, alone and as the last phase of \<^verbatim>\<open>update\<close>, keeps exactly the
  active balls for whose centre \<^verbatim>\<open>is_in_delete_zone\<close> does not hold.
\<close>

theorem zone_agree:
  assumes "reachable g"
  shows "(is_in_delete_zone g px py \<longleftrightarrow> in_rectangle (get_delete_zone_bounds g) px py) \<and>
         (is_in_delete_zone g px py \<longleftrightarrow>
            of_int (screen_width g) - 100 \<le> px \<and> px \<le> of_int (screen_width g) \<and>
            0 \<le> py \<and> py \<le> 100) \<and>
         check_delete_zone g =
           Inr (g\<lparr> balls := filter (\<lambda>ball. \<not> is_in_delete_zone g (x (heap g ball)) (y (heap g ball)))
                                    (balls g) \<rparr>) \<and>
         (\<exists>g3. update_to_suction g = Inr g3 \<and>
               update g =
                 Inr (g3\<lparr> balls := filter (\<lambda>ball. \<not> is_in_delete_zone g3 (x (heap g3 ball))
                                                                          (y (heap g3 ball)))
                                          (balls g3) \<rparr>))"
proof -
  from reachable_fixed_fields [OF assms] have f: "fixed_fields g" .
  then have nz: "suction_range g \<noteq> 0" by (simp add: fixed_fields_def)
  from f have 1: "is_in_delete_zone g px py \<longleftrightarrow> in_rectangle (get_delete_zone_bounds g) px py"
    by (simp add: fixed_fields_def is_in_delete_zone_def in_rectangle_def get_delete_zone_bounds_def)
  from f have 2: "is_in_delete_zone g px py \<longleftrightarrow>
            of_int (screen_width g) - 100 \<le> px \<and> px \<le> of_int (screen_width g) \<and>
            0 \<le> py \<and> py \<le> 100"
    by (simp add: fixed_fields_def is_in_delete_zone_def)
  have 3: "check_delete_zone g =
           Inr (g\<lparr> balls := filter (\<lambda>ball. \<not> is_in_delete_zone g (x (heap g ball)) (y (heap g ball)))
                                    (balls g) \<rparr>)"
    using check_delete_zone_filter [of g] by (simp add: in_zone_def)
  from update_result [OF nz] obtain g3 where
    "update_to_suction g = Inr g3"
    "update g = Inr (g3\<lparr> balls := filter (\<lambda>ball. \<not> in_zone g3 ball) (balls g3) \<rparr>)"
    by metis
  then have 4: "\<exists>g3. update_to_suction g = Inr g3 \<and>
               update g =
                 Inr (g3\<lparr> balls := filter (\<lambda>ball. \<not> is_in_delete_zone g3 (x (heap g3 ball))
                                                                          (y (heap g3 ball)))
                                          (balls g3) \<rparr>)"
    by (auto simp: in_zone_def)
  from 1 2 3 4 show ?thesis by blast
qed

text \<open>Points inside, on the corners of, and outside the zone of the 800 by 600 screen.\<close>

theorem zone_agree_witness:
  "reachable zone_game \<and>
   is_in_delete_zone zone_game 750 50 \<and>
   in_rectangle (get_delete_zone_bounds zone_game) 750 50 \<and>
   is_in_delete_zone zone_game 700 0 \<and>
   is_in_delete_zone zone_game 800 100 \<and>
   \<not> is_in_delete_zone zone_game 699 50 \<and>
   \<not> in_rectangle (get_delete_zone_bounds zone_game) 699 50"
proof -
  have w: "screen_width zone_game = 800"
    by (simp add: zone_game_def build_defs)
  from zone_agree [OF reachable_zone_game, of 750 50]
    zone_agree [OF reachable_zone_game, of 700 0]
    zone_agree [OF reachable_zone_game, of 800 100]
    zone_agree [OF reachable_zone_game, of 699 50]
    reachable_zone_game
  show ?thesis by (auto simp: w)
qed

subsection \<open>Ejection\<close>

text \<open>
  Claim C7. \<^verbatim>\<open>eject_ball\<close> returns \<^verbatim>\<open>None\<close> exactly when the inventory is
  empty, and then the state is unchanged. Otherwise it takes the last ball of the
  inventory, puts it at the given position, gives it the velocity when one is supplied,
  appends it to the active balls and returns it. The suction appends the balls it
  collects to the end of the inventory, so of two balls that entered it one after the
  other, the later one is ejected first and the earlier one next.
\<close>

theorem eject_ball_lifo:
  "(fst (eject_ball g mouse_x mouse_y vel d) = None \<longleftrightarrow> inventory g = []) \<and>
   (inventory g = [] \<longrightarrow> snd (eject_ball g mouse_x mouse_y vel d) = g) \<and>
   (\<forall>rest ball. inventory g = rest @ [ball] \<longrightarrow>
      (case eject_ball g mouse_x mouse_y vel d of (res, g') \<Rightarrow>
         res = Some ball \<and> inventory g' = rest \<and> balls g' = balls g @ [ball] \<and>
         x (heap g' ball) = mouse_x \<and> y (heap g' ball) = mouse_y \<and>
         (\<forall>v. vel = Some v \<longrightarrow> velocity (heap g' ball) = v))) \<and>
   (\<forall>rest a b. inventory g = rest @ [a, b] \<longrightarrow>
      fst (eject_ball g mouse_x mouse_y vel d) = Some b \<and>
      fst (eject_ball (snd (eject_ball g mouse_x mouse_y vel d)) mouse_x' mouse_y' vel' d') = Some a) \<and>
   (suction_range g \<noteq> 0 \<longrightarrow>
      (\<exists>g'. process_suction g = Inr g' \<and>
            inventory g' =
              inventory g @
              filter (collected (heap g) (suction_mouse_pos g) (suction_range g)) (balls g)))"
proof -
  have two: "butlast (rest @ [a, b]) = rest @ [a]" "last (rest @ [a, b]) = b" for rest :: "ref list" and a b
    by (simp_all add: butlast_append)
  have eject:
    "(fst (eject_ball g mouse_x mouse_y vel d) = None \<longleftrightarrow> inventory g = []) \<and>
     (inventory g = [] \<longrightarrow> snd (eject_ball g mouse_x mouse_y vel d) = g) \<and>
     (\<forall>rest ball. inventory g = rest @ [ball] \<longrightarrow>
        (case eject_ball g mouse_x mouse_y vel d of (res, g') \<Rightarrow>
           res = Some ball \<and> inventory g' = rest \<and> balls g' = balls g @ [ball] \<and>
           x (heap g' ball) = mouse_x \<and> y (heap g' ball) = mouse_y \<and>
           (\<forall>v. vel = Some v \<longrightarrow> velocity (heap g' ball) = v))) \<and>
     (\<forall>rest a b. inventory g = rest @ [a, b] \<longrightarrow>
        fst (eject_ball g mouse_x mouse_y vel d) = Some b \<and>
        fst (eject_ball (snd (eject_ball g mouse_x mouse_y vel d)) mouse_x' mouse_y' vel' d') = Some a)"
    by (auto simp: eject_ball_def Let_def two)
  have suck:
    "suction_range g \<noteq> 0 \<longrightarrow>
      (\<exists>g'. process_suction g = Inr g' \<and>
            inventory g' =
              inventory g @
              filter (collected (heap g) (suction_mouse_pos g) (suction_range g)) (balls g))"
  proof
    assume "suction_range g \<noteq> 0"
    from process_suction_result [OF this] obtain h' where
      "process_suction g =
         Inr (g\<lparr> heap := h',
                  inventory := inventory g @
                     filter (collected (heap g) (suction_mouse_pos g) (suction_range g)) (balls g),
                  balls := filter (\<lambda>ball. \<not> collected (heap g) (suction_mouse_pos g)
                                               (suction_range g) ball) (balls g) \<rparr>)"
      by blast
    then show "\<exists>g'. process_suction g = Inr g' \<and>
            inventory g' =
              inventory g @
              filter (collected (heap g) (suction_mouse_pos g) (suction_range g)) (balls g)"
      by simp
  qed
  note e1 = eject [THEN conjunct1]
    and e2 = eject [THEN conjunct2, THEN conjunct1]
    and e3 = eject [THEN conjunct2, THEN conjunct2, THEN conjunct1]
    and e4 = eject [THEN conjunct2, THEN conjunct2, THEN conjunct2]
  from e1 e2 e3 e4 suck show ?thesis by (intro conjI)
qed

text \<open>
  The run in which the suction stores A and then B: the first ejection returns B at the
  given place, the second returns A, and ejecting from a new game returns nothing.
\<close>

theorem eject_ball_lifo_witness:
  "update two_ball_game = Inr two_stored_game \<and>
   inventory two_stored_game = [0, 1] \<and>
   fst (eject_ball two_stored_game 500 500 (Some (1, 1)) example_draws) = Some 1 \<and>
   balls (snd (eject_ball two_stored_game 500 500 (Some (1, 1)) example_draws)) = [1] \<and>
   inventory (snd (eject_ball two_stored_game 500 500 (Some (1, 1)) example_draws)) = [0] \<and>
   x (heap (snd (eject_ball two_stored_game 500 500 (Some (1, 1)) example_draws)) 1) = 500 \<and>
   velocity (heap (snd (eject_ball two_stored_game 500 500 (Some (1, 1)) example_draws)) 1)
     = (1, 1) \<and>
   fst (eject_ball (snd (eject_ball two_stored_game 500 500 (Some (1, 1)) example_draws))
          520 500 None example_draws) = Some 0 \<and>
   fst (eject_ball (GameLogic_init 800 600) 500 500 None example_draws) = None"
proof -
  have i: "inventory two_stored_game = [] @ [0, 1]" "inventory two_stored_game = [0] @ [1]"
    "balls two_stored_game = []"
    by (simp_all add: two_stored_game_def)
  have e: "inventory (GameLogic_init 800 600) = []"
    by (simp add: GameLogic_init_def)
  from eject_ball_lifo [of two_stored_game 500 500 "Some (1, 1)" example_draws 520 500 None
                           example_draws]
    eject_ball_lifo [of "GameLogic_init 800 600" 500 500 None example_draws 0 0 None example_draws]
    i e update_two_ball_game
  show ?thesis by (auto split: prod.splits)
qed

end
